theory Spec2Isabelle
  imports Main "HOL-Library.Word" "HOL-Library.Signed_Division" "HOL-Library.Sublist"
    "HOL-Library.Char_ord" "HOL-Library.List_Lexorder"
begin

section \<open>Go integers\<close>

text \<open>
  \<^verbatim>\<open>time.Duration\<close> is an \<^verbatim>\<open>int64\<close> (nanoseconds). Go's \<^verbatim>\<open>int\<close> is taken at its
  64-bit width (amd64, arm64). Both are 64-bit words: \<open>+\<close> and \<open>-\<close> wrap around,
  comparisons are the signed ones (\<open><s\<close>, \<open>\<le>s\<close>), \<open>sint\<close> reads a value.
\<close>

type_synonym int64 = "64 word"

definition MaxInt64 :: int64 where
  \<comment> \<open>\<^verbatim>\<open>math.MaxInt64\<close>\<close>
  "MaxInt64 = 9223372036854775807"

datatype panic = IntegerDivideByZero | CloseOfClosedChannel

definition quo :: "int64 \<Rightarrow> int64 \<Rightarrow> panic + int64" where
  \<comment> \<open>Go's \<^verbatim>\<open>a / b\<close> on \<^verbatim>\<open>int64\<close>: a run-time panic when \<open>b\<close> is zero, otherwise the
      quotient truncated towards zero (and wrapped, for \<^verbatim>\<open>MinInt64 / -1\<close>).\<close>
  "quo a b = (if b = 0 then Inl IntegerDivideByZero else Inr (word_of_int (sint a sdiv sint b)))"

section \<open>The protocol registry (ping.go, lines 21-31)\<close>

text \<open>
  \<^verbatim>\<open>type Protocol int\<close>; \<^verbatim>\<open>var pinger = map[Protocol]Factory{}\<close>. A \<^verbatim>\<open>Factory\<close> is a
  function value; \<open>None\<close> stands for the nil function, which is also what a Go map
  returns for a key it does not hold. The global map is passed and returned explicitly.
\<close>

type_synonym Protocol = int64

definition TCP :: Protocol where "TCP = 0"
definition HTTP :: Protocol where "HTTP = 1"
definition HTTPS :: Protocol where "HTTPS = 2"

type_synonym 'f Factory = "'f option"

type_synonym 'f registry = "Protocol \<rightharpoonup> 'f Factory"

definition pinger :: "'f registry" where
  "pinger = Map.empty"

definition Register :: "Protocol \<Rightarrow> 'f Factory \<Rightarrow> 'f registry \<Rightarrow> 'f registry" where
  "Register protocol factory m = m(protocol \<mapsto> factory)"

definition Load :: "Protocol \<Rightarrow> 'f registry \<Rightarrow> 'f Factory" where
  "Load protocol m = (case m protocol of None \<Rightarrow> None | Some factory \<Rightarrow> factory)"

definition registered :: "(Protocol \<times> 'f Factory) list \<Rightarrow> 'f registry" where
  \<comment> \<open>the map after the calls \<^verbatim>\<open>Register(protocol, factory)\<close> of the list, in order\<close>
  "registered regs = fold (\<lambda>(protocol, factory). Register protocol factory) regs pinger"

section \<open>Go error values\<close>

text \<open>
  The error values \<^verbatim>\<open>FormatError\<close> and \<^verbatim>\<open>logStats\<close> tell apart, by dynamic type:
  the sentinels \<^verbatim>\<open>io.EOF\<close>, \<^verbatim>\<open>context.DeadlineExceeded\<close> and \<^verbatim>\<open>context.Canceled\<close>;
  \<^verbatim>\<open>syscall.Errno\<close> (the number and the message the platform's table holds for it);
  \<^verbatim>\<open>errors.New\<close> values; \<^verbatim>\<open>fmt.Errorf\<close> values with one \<^verbatim>\<open>%w\<close> operand (their text and
  the wrapped error); the package net's \<^verbatim>\<open>timeoutError\<close> and \<^verbatim>\<open>canceledError\<close>; any other
  implementation of \<^verbatim>\<open>net.Error\<close> without \<^verbatim>\<open>Unwrap\<close> (its text and what its \<^verbatim>\<open>Timeout\<close>
  and \<^verbatim>\<open>Temporary\<close> methods return); \<^verbatim>\<open>*net.DNSError\<close> (fields \<^verbatim>\<open>Err\<close>, \<^verbatim>\<open>Name\<close>,
  \<^verbatim>\<open>Server\<close>, \<^verbatim>\<open>IsTimeout\<close>, \<^verbatim>\<open>IsTemporary\<close>); \<^verbatim>\<open>*os.SyscallError\<close> (\<^verbatim>\<open>Syscall\<close>,
  \<^verbatim>\<open>Err\<close>); \<^verbatim>\<open>*net.OpError\<close> (\<^verbatim>\<open>Op\<close>, \<^verbatim>\<open>Net\<close>, the texts of \<^verbatim>\<open>Source\<close> and
  \<^verbatim>\<open>Addr\<close> when present, \<^verbatim>\<open>Err\<close>); \<^verbatim>\<open>*url.Error\<close> (\<^verbatim>\<open>Op\<close>, \<^verbatim>\<open>URL\<close>, \<^verbatim>\<open>Err\<close>).
  The cause inside a wrapper is never nil; the field \<^verbatim>\<open>UnwrapErr\<close> that newer versions of Go
  give a \<^verbatim>\<open>*net.DNSError\<close> is nil; errors with several causes (\<^verbatim>\<open>errors.Join\<close>) are left out.
\<close>

datatype go_error =
    EOF
  | DeadlineExceeded
  | Canceled
  | Errno nat string
  | ErrorString string
  | WrapError string go_error
  | TimeoutError
  | CanceledError
  | NetError string bool bool
  | DNSError string string string bool bool
  | SyscallError string go_error
  | OpError string string "string option" "string option" go_error
  | UrlError string string go_error

text \<open>Errno numbers of Linux (package syscall, \<^verbatim>\<open>zerrors_linux_amd64.go\<close>).\<close>

definition EINTR :: nat where "EINTR = 4"
definition EAGAIN :: nat where "EAGAIN = 11"
definition EWOULDBLOCK :: nat where "EWOULDBLOCK = 11"
definition ENFILE :: nat where "ENFILE = 23"
definition EMFILE :: nat where "EMFILE = 24"
definition ECONNABORTED :: nat where "ECONNABORTED = 103"
definition ECONNRESET :: nat where "ECONNRESET = 104"
definition ETIMEDOUT :: nat where "ETIMEDOUT = 110"
definition ECONNREFUSED :: nat where "ECONNREFUSED = 111"

definition Errno_Timeout :: "nat \<Rightarrow> bool" where
  "Errno_Timeout e = (e = EAGAIN \<or> e = EWOULDBLOCK \<or> e = ETIMEDOUT)"

definition Errno_Temporary :: "nat \<Rightarrow> bool" where
  "Errno_Temporary e = (e = EINTR \<or> e = EMFILE \<or> e = ENFILE \<or> Errno_Timeout e)"

definition is_true :: "bool option \<Rightarrow> bool" where
  \<comment> \<open>\<^verbatim>\<open>t, ok := e.(interface{ M() bool }); ok && t.M()\<close>\<close>
  "is_true r = (r = Some True)"

fun isConnError :: "go_error \<Rightarrow> bool" where
  "isConnError (Errno e txt) = (e = ECONNRESET \<or> e = ECONNABORTED)"
| "isConnError err = False"

text \<open>
  \<open>Timeout_method err\<close> is \<open>None\<close> when the dynamic type of \<open>err\<close> has no method
  \<^verbatim>\<open>Timeout() bool\<close>, and \<open>Some b\<close> when it has one that returns \<open>b\<close>; likewise
  \<open>Temporary_method\<close>. The bodies are those of the standard library.
\<close>

fun Timeout_method :: "go_error \<Rightarrow> bool option" where
  "Timeout_method DeadlineExceeded = Some True"
| "Timeout_method (Errno e txt) = Some (Errno_Timeout e)"
| "Timeout_method TimeoutError = Some True"
| "Timeout_method (NetError txt tmo tmp) = Some tmo"
| "Timeout_method (DNSError msg name server isTimeout isTemporary) = Some isTimeout"
| "Timeout_method (SyscallError sc e) = Some (is_true (Timeout_method e))"
| "Timeout_method (OpError op nt src ad (SyscallError sc e)) = Some (is_true (Timeout_method e))"
| "Timeout_method (OpError op nt src ad e) = Some (is_true (Timeout_method e))"
| "Timeout_method (UrlError op u e) = Some (is_true (Timeout_method e))"
| "Timeout_method err = None"

fun Temporary_method :: "go_error \<Rightarrow> bool option" where
  "Temporary_method DeadlineExceeded = Some True"
| "Temporary_method (Errno e txt) = Some (Errno_Temporary e)"
| "Temporary_method TimeoutError = Some True"
| "Temporary_method (NetError txt tmo tmp) = Some tmp"
| "Temporary_method (DNSError msg name server isTimeout isTemporary) =
     Some (isTimeout \<or> isTemporary)"
| "Temporary_method (OpError op nt src ad (SyscallError sc e)) =
     Some ((op = ''accept'' \<and> isConnError (SyscallError sc e)) \<or> is_true (Temporary_method e))"
| "Temporary_method (OpError op nt src ad e) =
     Some ((op = ''accept'' \<and> isConnError e) \<or> is_true (Temporary_method e))"
| "Temporary_method (UrlError op u e) = Some (is_true (Temporary_method e))"
| "Temporary_method err = None"

definition Timeout :: "go_error \<Rightarrow> bool" where
  "Timeout err = is_true (Timeout_method err)"

definition Temporary :: "go_error \<Rightarrow> bool" where
  "Temporary err = is_true (Temporary_method err)"

definition is_net_Error :: "go_error \<Rightarrow> bool" where
  \<comment> \<open>the type assertion \<^verbatim>\<open>err.(net.Error)\<close>: the dynamic type has both methods\<close>
  "is_net_Error err = (Timeout_method err \<noteq> None \<and> Temporary_method err \<noteq> None)"

definition Quote :: "string \<Rightarrow> string" where
  \<comment> \<open>\<^verbatim>\<open>%q\<close> on a text of printable ASCII without double quote or backslash\<close>
  "Quote s = [CHR 0x22] @ s @ [CHR 0x22]"

fun ErrorText :: "go_error \<Rightarrow> string" where
  "ErrorText EOF = ''EOF''"
| "ErrorText DeadlineExceeded = ''context deadline exceeded''"
| "ErrorText Canceled = ''context canceled''"
| "ErrorText (Errno e txt) = txt"
| "ErrorText (ErrorString txt) = txt"
| "ErrorText (WrapError txt e) = txt"
| "ErrorText TimeoutError = ''i/o timeout''"
| "ErrorText CanceledError = ''operation was canceled''"
| "ErrorText (NetError txt tmo tmp) = txt"
| "ErrorText (DNSError msg name server isTimeout isTemporary) =
     ''lookup '' @ name @ (if server \<noteq> [] then '' on '' @ server else []) @ '': '' @ msg"
| "ErrorText (SyscallError sc e) = sc @ '': '' @ ErrorText e"
| "ErrorText (OpError op nt src ad e) =
     op @ (if nt \<noteq> [] then '' '' @ nt else [])
        @ (case src of None \<Rightarrow> [] | Some s \<Rightarrow> '' '' @ s)
        @ (case ad of None \<Rightarrow> []
           | Some a \<Rightarrow> (case src of None \<Rightarrow> '' '' | Some s \<Rightarrow> ''->'') @ a)
        @ '': '' @ ErrorText e"
| "ErrorText (UrlError op u e) = op @ '' '' @ Quote u @ '': '' @ ErrorText e"

text \<open>
  \<^verbatim>\<open>errors.Is(err, target)\<close> for a sentinel \<open>target\<close>: at each layer the comparison
  \<^verbatim>\<open>err == target\<close>, then the layer's own \<^verbatim>\<open>Is\<close> method (package net's \<^verbatim>\<open>timeoutError\<close>
  is \<^verbatim>\<open>context.DeadlineExceeded\<close>, its \<^verbatim>\<open>canceledError\<close> is \<^verbatim>\<open>context.Canceled\<close>), then
  \<^verbatim>\<open>Unwrap\<close>.
\<close>

fun errors_Is :: "go_error \<Rightarrow> go_error \<Rightarrow> bool" where
  "errors_Is (WrapError txt e) target = (WrapError txt e = target \<or> errors_Is e target)"
| "errors_Is (SyscallError sc e) target = (SyscallError sc e = target \<or> errors_Is e target)"
| "errors_Is (OpError op nt src ad e) target =
     (OpError op nt src ad e = target \<or> errors_Is e target)"
| "errors_Is (UrlError op u e) target = (UrlError op u e = target \<or> errors_Is e target)"
| "errors_Is TimeoutError target = (TimeoutError = target \<or> target = DeadlineExceeded)"
| "errors_Is CanceledError target = (CanceledError = target \<or> target = Canceled)"
| "errors_Is err target = (err = target)"

section \<open>The error normalizer (utils.go, lines 56-156; ping.go, lines 214-314)\<close>

fun Contains :: "string \<Rightarrow> string \<Rightarrow> bool" where
  \<comment> \<open>\<^verbatim>\<open>strings.Contains(s, substr)\<close>\<close>
  "Contains [] substr = (substr = [])"
| "Contains (c # s) substr = (prefix substr (c # s) \<or> Contains s substr)"

definition msg_timeout :: string where
  \<comment> \<open>UTF-8 bytes of the Chinese message meaning: timed out (Pinger.formatError, type switch)\<close>
  "msg_timeout = [CHR 0xE8, CHR 0xB6, CHR 0x85, CHR 0xE6, CHR 0x97, CHR 0xB6]"

definition msg_conn_timeout :: string where
  \<comment> \<open>UTF-8 bytes of the Chinese message meaning: connection timed out (FormatError, type switch)\<close>
  "msg_conn_timeout = [CHR 0xE8, CHR 0xBF, CHR 0x9E, CHR 0xE6, CHR 0x8E, CHR 0xA5, CHR 0xE8, CHR 0xB6, CHR 0x85, CHR 0xE6, CHR 0x97, CHR 0xB6]"

definition msg_eof :: string where
  \<comment> \<open>UTF-8 bytes of the Chinese message meaning: the network closed the connection\<close>
  "msg_eof = [CHR 0xE7, CHR 0xBD, CHR 0x91, CHR 0xE7, CHR 0xBB, CHR 0x9C, CHR 0xE4, CHR 0xB8, CHR 0xBB, CHR 0xE5, CHR 0x8A, CHR 0xA8, CHR 0xE6, CHR 0x96, CHR 0xAD, CHR 0xE5, CHR 0xBC, CHR 0x80]"

definition msg_net_timeout :: string where
  \<comment> \<open>UTF-8 bytes of the Chinese message meaning: network connection timed out\<close>
  "msg_net_timeout = [CHR 0xE7, CHR 0xBD, CHR 0x91, CHR 0xE7, CHR 0xBB, CHR 0x9C, CHR 0xE8, CHR 0xBF, CHR 0x9E, CHR 0xE6, CHR 0x8E, CHR 0xA5, CHR 0xE8, CHR 0xB6, CHR 0x85, CHR 0xE6, CHR 0x97, CHR 0xB6]"

definition msg_net_temporary :: string where
  \<comment> \<open>UTF-8 bytes of the Chinese message meaning: temporary network error\<close>
  "msg_net_temporary = [CHR 0xE7, CHR 0xBD, CHR 0x91, CHR 0xE7, CHR 0xBB, CHR 0x9C, CHR 0xE4, CHR 0xB8, CHR 0xB4, CHR 0xE6, CHR 0x97, CHR 0xB6, CHR 0xE9, CHR 0x94, CHR 0x99, CHR 0xE8, CHR 0xAF, CHR 0xAF]"

definition msg_dns :: string where
  \<comment> \<open>UTF-8 bytes of the Chinese message meaning: name resolution error\<close>
  "msg_dns = [CHR 0xE5, CHR 0x9F, CHR 0x9F, CHR 0xE5, CHR 0x90, CHR 0x8D, CHR 0xE8, CHR 0xA7, CHR 0xA3, CHR 0xE6, CHR 0x9E, CHR 0x90, CHR 0xE9, CHR 0x94, CHR 0x99, CHR 0xE8, CHR 0xAF, CHR 0xAF]"

definition msg_refused_by_server :: string where
  \<comment> \<open>UTF-8 bytes of the Chinese message meaning: connection refused by the server\<close>
  "msg_refused_by_server = [CHR 0xE8, CHR 0xBF, CHR 0x9E, CHR 0xE6, CHR 0x8E, CHR 0xA5, CHR 0xE8, CHR 0xA2, CHR 0xAB, CHR 0xE6, CHR 0x9C, CHR 0x8D, CHR 0xE5, CHR 0x8A, CHR 0xA1, CHR 0xE5, CHR 0x99, CHR 0xA8, CHR 0xE6, CHR 0x8B, CHR 0x92, CHR 0xE7, CHR 0xBB, CHR 0x9D]"

definition msg_forcibly_closed :: string where
  \<comment> \<open>UTF-8 bytes of the Chinese message meaning: the remote host forcibly closed the connection\<close>
  "msg_forcibly_closed = [CHR 0xE8, CHR 0xBF, CHR 0x9C, CHR 0xE7, CHR 0xA8, CHR 0x8B, CHR 0xE4, CHR 0xB8, CHR 0xBB, CHR 0xE6, CHR 0x9C, CHR 0xBA, CHR 0xE5, CHR 0xBC, CHR 0xBA, CHR 0xE8, CHR 0xA1, CHR 0x8C, CHR 0xE5, CHR 0x85, CHR 0xB3, CHR 0xE9, CHR 0x97, CHR 0xAD, CHR 0xE4, CHR 0xBA, CHR 0x86, CHR 0xE7, CHR 0x8E, CHR 0xB0, CHR 0xE6, CHR 0x9C, CHR 0x89, CHR 0xE8, CHR 0xBF, CHR 0x9E, CHR 0xE6, CHR 0x8E, CHR 0xA5]"

definition msg_cert_unverifiable :: string where
  \<comment> \<open>UTF-8 bytes of the Chinese message meaning: the certificate cannot be verified\<close>
  "msg_cert_unverifiable = [CHR 0xE6, CHR 0x97, CHR 0xA0, CHR 0xE6, CHR 0xB3, CHR 0x95, CHR 0xE9, CHR 0xAA, CHR 0x8C, CHR 0xE8, CHR 0xAF, CHR 0x81, CHR 0xE8, CHR 0xAF, CHR 0x81, CHR 0xE4, CHR 0xB9, CHR 0xA6]"

definition msg_invalid_domain :: string where
  \<comment> \<open>UTF-8 bytes of the Chinese message meaning: invalid domain name\<close>
  "msg_invalid_domain = [CHR 0xE6, CHR 0x97, CHR 0xA0, CHR 0xE6, CHR 0x95, CHR 0x88, CHR 0xE5, CHR 0x9F, CHR 0x9F, CHR 0xE5, CHR 0x90, CHR 0x8D]"

definition msg_closed_conn :: string where
  \<comment> \<open>UTF-8 bytes of the Chinese message meaning: use of a closed network connection\<close>
  "msg_closed_conn = [CHR 0xE4, CHR 0xBD, CHR 0xBF, CHR 0xE7, CHR 0x94, CHR 0xA8, CHR 0xE5, CHR 0xB7, CHR 0xB2, CHR 0xE5, CHR 0x85, CHR 0xB3, CHR 0xE9, CHR 0x97, CHR 0xAD, CHR 0xE7, CHR 0x9A, CHR 0x84, CHR 0xE7, CHR 0xBD, CHR 0x91, CHR 0xE7, CHR 0xBB, CHR 0x9C, CHR 0xE8, CHR 0xBF, CHR 0x9E, CHR 0xE6, CHR 0x8E, CHR 0xA5]"

definition msg_conn_refused :: string where
  \<comment> \<open>UTF-8 bytes of the Chinese message meaning: connection refused\<close>
  "msg_conn_refused = [CHR 0xE8, CHR 0xBF, CHR 0x9E, CHR 0xE6, CHR 0x8E, CHR 0xA5, CHR 0xE8, CHR 0xA2, CHR 0xAB, CHR 0xE6, CHR 0x8B, CHR 0x92, CHR 0xE7, CHR 0xBB, CHR 0x9D]"

definition msg_needs_https :: string where
  \<comment> \<open>UTF-8 bytes of the Chinese message meaning: the server requires https\<close>
  "msg_needs_https = [CHR 0xE6, CHR 0x9C, CHR 0x8D, CHR 0xE5, CHR 0x8A, CHR 0xA1, CHR 0xE5, CHR 0x99, CHR 0xA8, CHR 0xE9, CHR 0x9C, CHR 0x80, CHR 0xE8, CHR 0xA6, CHR 0x81] @ ''https'' @ [CHR 0xE8, CHR 0xAE, CHR 0xBF, CHR 0xE9, CHR 0x97, CHR 0xAE]"

definition msg_cert_invalid :: string where
  \<comment> \<open>UTF-8 bytes of the Chinese message meaning: invalid site certificate\<close>
  "msg_cert_invalid = [CHR 0xE6, CHR 0x97, CHR 0xA0, CHR 0xE6, CHR 0x95, CHR 0x88, CHR 0xE7, CHR 0x9A, CHR 0x84, CHR 0xE7, CHR 0xBD, CHR 0x91, CHR 0xE7, CHR 0xAB, CHR 0x99, CHR 0xE8, CHR 0xAF, CHR 0x81, CHR 0xE4, CHR 0xB9, CHR 0xA6]"

definition msg_cert_mismatch :: string where
  \<comment> \<open>UTF-8 bytes of the Chinese message meaning: site certificate does not match\<close>
  "msg_cert_mismatch = [CHR 0xE7, CHR 0xBD, CHR 0x91, CHR 0xE7, CHR 0xAB, CHR 0x99, CHR 0xE8, CHR 0xAF, CHR 0x81, CHR 0xE4, CHR 0xB9, CHR 0xA6, CHR 0xE4, CHR 0xB8, CHR 0x8D, CHR 0xE5, CHR 0x8C, CHR 0xB9, CHR 0xE9, CHR 0x85, CHR 0x8D]"

definition msg_cannot_connect :: string where
  \<comment> \<open>UTF-8 bytes of the Chinese message meaning: cannot establish a connection\<close>
  "msg_cannot_connect = [CHR 0xE6, CHR 0x97, CHR 0xA0, CHR 0xE6, CHR 0xB3, CHR 0x95, CHR 0xE5, CHR 0xBB, CHR 0xBA, CHR 0xE7, CHR 0xAB, CHR 0x8B, CHR 0xE8, CHR 0xBF, CHR 0x9E, CHR 0xE6, CHR 0x8E, CHR 0xA5]"

definition msg_forcibly_closed_by_remote :: string where
  \<comment> \<open>UTF-8 bytes of the Chinese message meaning: the remote host forced the connection closed\<close>
  "msg_forcibly_closed_by_remote = [CHR 0xE8, CHR 0xBF, CHR 0x9C, CHR 0xE7, CHR 0xA8, CHR 0x8B, CHR 0xE4, CHR 0xB8, CHR 0xBB, CHR 0xE6, CHR 0x9C, CHR 0xBA, CHR 0xE5, CHR 0xBC, CHR 0xBA, CHR 0xE5, CHR 0x88, CHR 0xB6, CHR 0xE5, CHR 0x85, CHR 0xB3, CHR 0xE9, CHR 0x97, CHR 0xAD, CHR 0xE4, CHR 0xBA, CHR 0x86, CHR 0xE7, CHR 0x8E, CHR 0xB0, CHR 0xE6, CHR 0x9C, CHR 0x89, CHR 0xE8, CHR 0xBF, CHR 0x9E, CHR 0xE6, CHR 0x8E, CHR 0xA5]"


text \<open>
  The chain of \<^verbatim>\<open>strings.Contains\<close> tests that ends both functions (utils.go, lines
  112-155), on the text \<^verbatim>\<open>err.Error()\<close>, in the order of the source.
\<close>

definition matchText :: "string \<Rightarrow> string" where
  "matchText txt =
    (if Contains txt ''forcibly closed'' then msg_forcibly_closed
     else if Contains txt ''because it doesn't contain any IP SANs'' then msg_cert_unverifiable
     else if Contains txt ''no such host'' then msg_invalid_domain
     else if Contains txt ''getaddrinfow'' then msg_dns
     else if Contains txt ''closed network connection'' then msg_closed_conn
     else if Contains txt ''connection refused'' then msg_conn_refused
     else if Contains txt ''server gave HTTP response to HTTPS client'' then msg_needs_https
     else if Contains txt ''x509: certificate is not valid'' then msg_cert_invalid
     else if Contains txt ''x509: certificate is valid'' then msg_cert_mismatch
     else if Contains txt ''actively refused it'' then msg_cannot_connect
     else if Contains txt ''was forcibly closed by the remote host''
       then msg_forcibly_closed_by_remote
     else txt)"

text \<open>
  The typed tests on a \<^verbatim>\<open>*net.OpError\<close> after the type switch (utils.go, lines 94-110):
  \<open>Some\<close> message when one of them returns, \<open>None\<close> when control falls through.
\<close>

fun opErrCause :: "go_error \<Rightarrow> string option" where
  "opErrCause (OpError op nt src ad (DNSError msg name server isTimeout isTemporary)) =
     Some msg_dns"
| "opErrCause (OpError op nt src ad (SyscallError sc (Errno e txt))) =
     (if e = ECONNREFUSED then Some msg_refused_by_server
      else if e = ETIMEDOUT then Some msg_net_timeout
      else None)"
| "opErrCause err = None"

definition afterSwitch :: "go_error \<Rightarrow> string" where
  \<comment> \<open>utils.go, lines 80-155: what follows the type switch\<close>
  "afterSwitch err =
    (if err = EOF then msg_eof
     else if is_net_Error err \<and> Timeout err then msg_net_timeout
     else if is_net_Error err \<and> Temporary err then msg_net_temporary
     else (case opErrCause err of
             Some msg \<Rightarrow> msg
           | None \<Rightarrow> matchText (ErrorText err)))"

text \<open>
  \<^verbatim>\<open>FormatError\<close> and \<^verbatim>\<open>Pinger.formatError\<close> are the same function up to the message
  their type switch returns for a timeout, which is the parameter \<open>tmo\<close> here. The type
  switch tries \<^verbatim>\<open>*url.Error\<close>, then \<^verbatim>\<open>net.Error\<close>, then \<^verbatim>\<open>default\<close>.
\<close>

fun formatErr :: "string \<Rightarrow> go_error \<Rightarrow> string" where
  "formatErr tmo (UrlError op u e) =
     (if Timeout (UrlError op u e) then tmo else formatErr tmo e)"
| "formatErr tmo (OpError op nt src ad (SyscallError sc e)) =
     (if Timeout (OpError op nt src ad (SyscallError sc e)) then tmo else formatErr tmo e)"
| "formatErr tmo err =
     (if is_net_Error err then (if Timeout err then tmo else afterSwitch err)
      else if errors_Is err DeadlineExceeded then tmo
      else afterSwitch err)"

definition FormatError :: "go_error \<Rightarrow> string" where
  "FormatError err = formatErr msg_conn_timeout err"

definition formatError :: "go_error \<Rightarrow> string" where
  \<comment> \<open>\<^verbatim>\<open>Pinger.formatError\<close>; the receiver is not used\<close>
  "formatError err = formatErr msg_timeout err"

section \<open>Stats and the Pinger (ping.go)\<close>

text \<open>
  \<^verbatim>\<open>Stats.Error\<close> is \<open>None\<close> for nil. \<^verbatim>\<open>Stats.Meta\<close> lists each key of the map with the
  text of its value; \<^verbatim>\<open>Stats.Extra\<close> is the text of the \<^verbatim>\<open>fmt.Stringer\<close>, \<open>None\<close> for nil.
\<close>

record Stats =
  Connected :: bool
  Error :: "go_error option"
  Duration :: int64
  DNSDuration :: int64
  Address :: string
  Meta :: "(string \<times> string) list"
  Extra :: "string option"

definition meta_value :: "(string \<times> string) list \<Rightarrow> string \<Rightarrow> string" where
  \<comment> \<open>\<^verbatim>\<open>s.Meta[key].String()\<close>, for a key of the map\<close>
  "meta_value m key = (case map_of m key of Some v \<Rightarrow> v | None \<Rightarrow> [])"

fun join_meta :: "(string \<times> string) list \<Rightarrow> string list \<Rightarrow> string" where
  "join_meta m [] = []"
| "join_meta m [key] = key @ ''='' @ meta_value m key"
| "join_meta m (key # keys) =
     key @ ''='' @ meta_value m key @ '' '' @ join_meta m keys"

definition FormatMeta :: "Stats \<Rightarrow> string" where
  "FormatMeta s = join_meta (Meta s) (sort (remdups (map fst (Meta s))))"

text \<open>
  The output stream \<^verbatim>\<open>p.out\<close> is the list of the calls made on it, each with its format
  and its arguments; rendering them is the work of package fmt.
\<close>

datatype arg = Str string | Num int64 | Dur int64

datatype call = Fprintf string "arg list" | Fprint string

text \<open>
  The Pinger without its probe (the probe's results come with the schedule below).
  \<open>stopOnce\<close> is the done flag of the \<^verbatim>\<open>sync.Once\<close>, \<open>stopC\<close> says whether the channel is
  closed, \<open>url\<close> is the text \<^verbatim>\<open>p.url.String()\<close>, \<open>total_n\<close> is the field \<^verbatim>\<open>total\<close>.
\<close>

record Pinger =
  stopOnce :: bool
  stopC :: bool
  out :: "call list"
  url :: string
  interval :: int64
  counter :: int64
  minDuration :: int64
  maxDuration :: int64
  totalDuration :: int64
  total_n :: int64
  failedTotal :: int64

definition NewPinger :: "call list \<Rightarrow> string \<Rightarrow> int64 \<Rightarrow> int64 \<Rightarrow> Pinger" where
  "NewPinger w u ival cnt =
    \<lparr> stopOnce = False, stopC = False, out = w, url = u, interval = ival, counter = cnt,
      minDuration = 0, maxDuration = 0, totalDuration = 0, total_n = 0, failedTotal = 0 \<rparr>"

definition Stop :: "Pinger \<Rightarrow> panic + Pinger" where
  \<comment> \<open>\<^verbatim>\<open>p.stopOnce.Do(func() { close(p.stopC) })\<close>; closing a closed channel panics\<close>
  "Stop p =
    (if stopOnce p then Inr p
     else if stopC p then Inl CloseOfClosedChannel
     else Inr (p\<lparr>stopOnce := True, stopC := True\<rparr>))"

definition and_then :: "panic + 'a \<Rightarrow> ('a \<Rightarrow> panic + 'b) \<Rightarrow> panic + 'b" where
  \<comment> \<open>sequencing: a panic ends the run\<close>
  "and_then r f = (case r of Inl e \<Rightarrow> Inl e | Inr x \<Rightarrow> f x)"

text \<open>
  \<^verbatim>\<open>strings.TrimSpace\<close> removes the white space of Unicode (\<^verbatim>\<open>unicode.IsSpace\<close>) from
  both ends, rune by rune. In UTF-8 these runes are the byte sequences of \<open>white_space\<close>:
  U+0009 to U+000D, U+0020, U+0085, U+00A0, U+1680, U+2000 to U+200A, U+2028, U+2029,
  U+202F, U+205F and U+3000. A text begins with such a rune exactly when one of the
  sequences is a prefix of it, and ends with one exactly when one is a suffix of it (the
  first byte of each sequence is no continuation byte).
\<close>

definition white_space :: "string list" where
  "white_space =
    [[CHR 0x09], [CHR 0x0A], [CHR 0x0B], [CHR 0x0C], [CHR 0x0D], [CHR 0x20],
     [CHR 0xC2, CHR 0x85], [CHR 0xC2, CHR 0xA0],
     [CHR 0xE1, CHR 0x9A, CHR 0x80],
     [CHR 0xE2, CHR 0x80, CHR 0x80], [CHR 0xE2, CHR 0x80, CHR 0x81],
     [CHR 0xE2, CHR 0x80, CHR 0x82], [CHR 0xE2, CHR 0x80, CHR 0x83],
     [CHR 0xE2, CHR 0x80, CHR 0x84], [CHR 0xE2, CHR 0x80, CHR 0x85],
     [CHR 0xE2, CHR 0x80, CHR 0x86], [CHR 0xE2, CHR 0x80, CHR 0x87],
     [CHR 0xE2, CHR 0x80, CHR 0x88], [CHR 0xE2, CHR 0x80, CHR 0x89],
     [CHR 0xE2, CHR 0x80, CHR 0x8A],
     [CHR 0xE2, CHR 0x80, CHR 0xA8], [CHR 0xE2, CHR 0x80, CHR 0xA9],
     [CHR 0xE2, CHR 0x80, CHR 0xAF],
     [CHR 0xE2, CHR 0x81, CHR 0x9F],
     [CHR 0xE3, CHR 0x80, CHR 0x80]]"

definition space_width :: "string list \<Rightarrow> string \<Rightarrow> nat" where
  \<comment> \<open>the length of the sequence of the table the text begins with, 0 when there is none\<close>
  "space_width tbl s = (case find (\<lambda>sp. prefix sp s) tbl of Some sp \<Rightarrow> length sp | None \<Rightarrow> 0)"

fun trim_start :: "string list \<Rightarrow> nat \<Rightarrow> string \<Rightarrow> string" where
  \<comment> \<open>drops the runes of the table from the start; \<open>k\<close> bytes of the current rune are
      still to drop\<close>
  "trim_start tbl k [] = []"
| "trim_start tbl (Suc k) (c # cs) = trim_start tbl k cs"
| "trim_start tbl 0 (c # cs) =
     (case space_width tbl (c # cs) of
        0 \<Rightarrow> c # cs
      | Suc w \<Rightarrow> trim_start tbl w cs)"

definition TrimSpace :: "string \<Rightarrow> string" where
  \<comment> \<open>\<^verbatim>\<open>TrimRightFunc(TrimLeftFunc(s, unicode.IsSpace), unicode.IsSpace)\<close>\<close>
  "TrimSpace s = rev (trim_start (map rev white_space) 0 (rev (trim_start white_space 0 s)))"

definition printStats :: "Pinger \<Rightarrow> Stats \<Rightarrow> Pinger" where
  \<comment> \<open>ping.go, lines 331-349\<close>
  "printStats p stats =
    (let status = (if Connected stats then ''Connected'' else ''Failed'');
         w1 = (case Error stats of
                 Some e \<Rightarrow>
                   [Fprintf ''Ping %s(%s) %s(%s) - time=%-10s dns=%-9s''
                      [Str (url p), Str (Address stats), Str status, Str (formatError e),
                       Dur (Duration stats), Dur (DNSDuration stats)]]
               | None \<Rightarrow>
                   [Fprintf ''Ping %s(%s) %s - time=%-10s dns=%-9s''
                      [Str (url p), Str (Address stats), Str status,
                       Dur (Duration stats), Dur (DNSDuration stats)]]);
         w2 = (if Meta stats \<noteq> [] then [Fprintf '' %s'' [Str (FormatMeta stats)]] else []);
         w3 = [Fprint [CHR 0x0A]];
         w4 = (case Extra stats of
                 Some x \<Rightarrow> [Fprintf ('' %s'' @ [CHR 0x0A]) [Str (TrimSpace x)]]
               | None \<Rightarrow> [])
     in p\<lparr>out := out p @ w1 @ w2 @ w3 @ w4\<rparr>)"

definition logStats :: "Pinger \<Rightarrow> Stats \<Rightarrow> Pinger" where
  \<comment> \<open>ping.go, lines 316-350\<close>
  "logStats p stats =
    (let p1 = (if Duration stats <s minDuration p then p\<lparr>minDuration := Duration stats\<rparr> else p);
         p2 = (if maxDuration p1 <s Duration stats then p1\<lparr>maxDuration := Duration stats\<rparr>
               else p1);
         p3 = p2\<lparr>totalDuration := totalDuration p2 + Duration stats\<rparr>
     in case Error stats of
          Some e \<Rightarrow>
            (let p4 = p3\<lparr>failedTotal := failedTotal p3 + 1\<rparr>
             in if errors_Is e Canceled then p4 else printStats p4 stats)
        | None \<Rightarrow> printStats p3 stats)"

text \<open>
  The loop of \<^verbatim>\<open>Pinger.Ping\<close> (ping.go, lines 185-199) runs against a schedule: what
  happens, in order, while the loop runs. \<open>TimerC stats\<close>: the \<^verbatim>\<open>select\<close> takes the timer
  case and the probe returns \<open>stats\<close>. \<open>DoneC\<close>: the \<^verbatim>\<open>select\<close> takes the case of the
  closed channel \<^verbatim>\<open>p.Done()\<close>; while the channel is open the case cannot be taken and the
  item is passed over. \<open>ExtStop\<close>: another goroutine calls \<^verbatim>\<open>p.Stop()\<close> (the main task of
  the program does, on an interrupt). A schedule that ends while \<^verbatim>\<open>stop\<close> is false leaves
  the loop waiting in its \<^verbatim>\<open>select\<close>. When the timer fires is not modelled, so the
  interval plays no part.
\<close>

datatype event = TimerC Stats | DoneC | ExtStop

definition tick :: "Pinger \<Rightarrow> Stats \<Rightarrow> Pinger" where
  \<comment> \<open>\<^verbatim>\<open>p.logStats(stats); p.total++\<close>\<close>
  "tick p stats = (let p1 = logStats p stats in p1\<lparr>total_n := total_n p1 + 1\<rparr>)"

definition exhausted :: "Pinger \<Rightarrow> bool" where
  \<comment> \<open>\<^verbatim>\<open>p.counter > 0 && p.total > p.counter-1\<close>\<close>
  "exhausted p = (0 <s counter p \<and> counter p - 1 <s total_n p)"

text \<open>
  \<open>loop n p es\<close> returns the variable \<^verbatim>\<open>stop\<close>, the number of calls of the probe (counted
  from \<open>n\<close>) and the Pinger.
\<close>

fun loop :: "nat \<Rightarrow> Pinger \<Rightarrow> event list \<Rightarrow> panic + (bool \<times> nat \<times> Pinger)" where
  "loop n p [] = Inr (False, n, p)"
| "loop n p (TimerC stats # es) =
     (if exhausted (tick p stats) then Inr (True, Suc n, tick p stats)
      else loop (Suc n) (tick p stats) es)"
| "loop n p (DoneC # es) = (if stopC p then Inr (True, n, p) else loop n p es)"
| "loop n p (ExtStop # es) = and_then (Stop p) (\<lambda>p'. loop n p' es)"

datatype phase = Running | Stopped

definition Ping :: "Pinger \<Rightarrow> event list \<Rightarrow> panic + (phase \<times> nat \<times> Pinger)" where
  \<comment> \<open>ping.go, lines 167-200; the deferred \<^verbatim>\<open>p.Stop()\<close> runs when the loop is left\<close>
  "Ping p es =
    and_then (loop 0 (p\<lparr>minDuration := MaxInt64\<rparr>) es)
      (\<lambda>(stop, n, p').
         if stop then and_then (Stop p') (\<lambda>p''. Inr (Stopped, n, p''))
         else Inr (Running, n, p'))"

definition tpl :: string where
  "tpl = [CHR 0x0A] @ ''Ping statistics %s'' @ [CHR 0x0A, CHR 0x09] @ ''%d probes sent.''
     @ [CHR 0x0A, CHR 0x09] @ ''%d successful, %d failed.'' @ [CHR 0x0A]
     @ ''Approximate trip times:'' @ [CHR 0x0A, CHR 0x09]
     @ ''Minimum = %s, Maximum = %s, Average = %s''"

definition Summarize :: "Pinger \<Rightarrow> panic + Pinger" where
  \<comment> \<open>ping.go, lines 202-212; the arguments are evaluated before the call\<close>
  "Summarize p =
    and_then (quo (totalDuration p) (total_n p))
      (\<lambda>avg. Inr (p\<lparr>out := out p @
         [Fprintf tpl [Str (url p), Num (total_n p), Num (total_n p - failedTotal p),
                       Num (failedTotal p), Dur (minDuration p), Dur (maxDuration p),
                       Dur avg]]\<rparr>))"

section \<open>Result (ping.go, lines 352-374)\<close>

text \<open>The record without its field \<^verbatim>\<open>Target\<close>, which \<^verbatim>\<open>Avg\<close> does not read.\<close>

record Result =
  Counter :: int64
  SuccessCounter :: int64
  MinDuration :: int64
  MaxDuration :: int64
  TotalDuration :: int64

definition Avg :: "Result \<Rightarrow> panic + int64" where
  "Avg result =
    (if SuccessCounter result = 0 then Inr 0
     else quo (TotalDuration result) (SuccessCounter result))"

section \<open>Notions the properties are stated with\<close>

fun Stop_times :: "nat \<Rightarrow> Pinger \<Rightarrow> panic + Pinger" where
  \<comment> \<open>\<open>n\<close> calls of \<^verbatim>\<open>p.Stop()\<close> in a row\<close>
  "Stop_times 0 p = Inr p"
| "Stop_times (Suc n) p = and_then (Stop p) (Stop_times n)"

definition stats_ok :: "int64 \<Rightarrow> Stats" where
  \<comment> \<open>a sample record: the probe connected, in the given time\<close>
  "stats_ok d = \<lparr> Connected = True, Error = None, Duration = d, DNSDuration = 0,
       Address = ''93.184.216.34:80'', Meta = [], Extra = None \<rparr>"

definition stats_failed :: "go_error \<Rightarrow> int64 \<Rightarrow> Stats" where
  \<comment> \<open>a sample record: the probe failed with the given error, in the given time\<close>
  "stats_failed e d = \<lparr> Connected = False, Error = Some e, Duration = d, DNSDuration = 0,
       Address = ''93.184.216.34:80'', Meta = [], Extra = None \<rparr>"

definition folded :: "Stats list \<Rightarrow> Pinger \<Rightarrow> Pinger" where
  \<comment> \<open>the Pinger after \<^verbatim>\<open>Ping\<close> has set the minimum and the loop has folded the records\<close>
  "folded ss p = foldl tick (p\<lparr>minDuration := MaxInt64\<rparr>) ss"

definition durations :: "Stats list \<Rightarrow> int list" where
  "durations ss = map (\<lambda>s. sint (Duration s)) ss"

definition accumulator_inv :: "Pinger \<Rightarrow> bool" where
  \<comment> \<open>the invariant of the counters, with the signed comparisons of Go\<close>
  "accumulator_inv p =
    (0 \<le>s failedTotal p \<and> failedTotal p \<le>s total_n p \<and>
     (0 <s total_n p \<longrightarrow> minDuration p \<le>s maxDuration p))"

text \<open>
  The line feeds a list of calls writes: those of each format, and those of each text
  printed by a \<^verbatim>\<open>%s\<close> (which prints its operand as it is; padding adds spaces only). A
  number and a duration are printed without a line feed. Each format of \<^verbatim>\<open>logStats\<close>
  prints each of its operands once.
\<close>

definition count_lf :: "string \<Rightarrow> nat" where
  "count_lf txt = length (filter (\<lambda>c. c = CHR 0x0A) txt)"

fun arg_lf :: "arg \<Rightarrow> nat" where
  "arg_lf (Str txt) = count_lf txt"
| "arg_lf (Num n) = 0"
| "arg_lf (Dur d) = 0"

fun call_lf :: "call \<Rightarrow> nat" where
  "call_lf (Fprintf f args) = count_lf f + sum_list (map arg_lf args)"
| "call_lf (Fprint txt) = count_lf txt"

definition line_feeds :: "call list \<Rightarrow> nat" where
  "line_feeds calls = sum_list (map call_lf calls)"

definition stats_extra :: "go_error \<Rightarrow> int64 \<Rightarrow> string \<Rightarrow> Stats" where
  \<comment> \<open>a sample record: an error, and an extra block\<close>
  "stats_extra e d x = \<lparr> Connected = False, Error = Some e, Duration = d, DNSDuration = 0,
       Address = ''93.184.216.34:443'', Meta = [], Extra = Some x \<rparr>"

text \<open>
  The order of tests the specification gives the normalizer, to compare \<open>formatErr\<close> with:
  the table of phrases in its fixed order with the first match winning (\<open>first_match\<close>);
  the layer of the error at which the unwrapping of the type switch ends (\<open>layer\<close>); and
  the typed tests made on that layer, before any phrase is looked for, \<open>None\<close> when none
  of them fires (\<open>typed_check\<close>). \<open>deadline_chain\<close> holds of
  \<^verbatim>\<open>context.DeadlineExceeded\<close> under any number of \<^verbatim>\<open>fmt\<close> wrappers, \<^verbatim>\<open>*url.Error\<close> and
  \<^verbatim>\<open>*os.SyscallError\<close>, and under a \<^verbatim>\<open>*net.OpError\<close> whose cause is the deadline itself or
  a \<^verbatim>\<open>*os.SyscallError\<close>.
\<close>

definition phrases :: "(string \<times> string) list" where
  "phrases =
    [(''forcibly closed'', msg_forcibly_closed),
     (''because it doesn't contain any IP SANs'', msg_cert_unverifiable),
     (''no such host'', msg_invalid_domain),
     (''getaddrinfow'', msg_dns),
     (''closed network connection'', msg_closed_conn),
     (''connection refused'', msg_conn_refused),
     (''server gave HTTP response to HTTPS client'', msg_needs_https),
     (''x509: certificate is not valid'', msg_cert_invalid),
     (''x509: certificate is valid'', msg_cert_mismatch),
     (''actively refused it'', msg_cannot_connect),
     (''was forcibly closed by the remote host'', msg_forcibly_closed_by_remote)]"

definition first_match :: "string \<Rightarrow> string" where
  "first_match txt =
    (case find (\<lambda>(phrase, msg). Contains txt phrase) phrases of
       Some (phrase, msg) \<Rightarrow> msg
     | None \<Rightarrow> txt)"

fun layer :: "go_error \<Rightarrow> go_error" where
  "layer (UrlError op u e) =
     (if Timeout (UrlError op u e) then UrlError op u e else layer e)"
| "layer (OpError op nt src ad (SyscallError sc e)) =
     (if Timeout (OpError op nt src ad (SyscallError sc e))
      then OpError op nt src ad (SyscallError sc e) else layer e)"
| "layer err = err"

definition typed_check :: "string \<Rightarrow> go_error \<Rightarrow> string option" where
  "typed_check tmo err =
    (if is_net_Error err \<and> Timeout err then Some tmo
     else if \<not> is_net_Error err \<and> errors_Is err DeadlineExceeded then Some tmo
     else if err = EOF then Some msg_eof
     else if is_net_Error err \<and> Temporary err then Some msg_net_temporary
     else opErrCause err)"

fun is_OpError :: "go_error \<Rightarrow> bool" where
  "is_OpError (OpError op nt src ad e) = True"
| "is_OpError err = False"

fun deadline_chain :: "go_error \<Rightarrow> bool" where
  "deadline_chain DeadlineExceeded = True"
| "deadline_chain (WrapError txt e) = deadline_chain e"
| "deadline_chain (UrlError op u e) = deadline_chain e"
| "deadline_chain (SyscallError sc e) = deadline_chain e"
| "deadline_chain (OpError op nt src ad DeadlineExceeded) = True"
| "deadline_chain (OpError op nt src ad (SyscallError sc e)) = deadline_chain e"
| "deadline_chain err = False"


section \<open>What logStats does to each field\<close>

lemma logStats_minDuration:
  "minDuration (logStats p s) =
     (if Duration s <s minDuration p then Duration s else minDuration p)"
  by (simp add: logStats_def printStats_def Let_def split: option.split)

lemma logStats_maxDuration:
  "maxDuration (logStats p s) =
     (if maxDuration p <s Duration s then Duration s else maxDuration p)"
  by (simp add: logStats_def printStats_def Let_def split: option.split)

lemma logStats_totalDuration:
  "totalDuration (logStats p s) = totalDuration p + Duration s"
  by (simp add: logStats_def printStats_def Let_def split: option.split)

lemma logStats_failedTotal:
  "failedTotal (logStats p s) = (if Error s = None then failedTotal p else failedTotal p + 1)"
  by (simp add: logStats_def printStats_def Let_def split: option.split)

lemma logStats_total_n: "total_n (logStats p s) = total_n p"
  by (simp add: logStats_def printStats_def Let_def split: option.split)

lemma logStats_counter: "counter (logStats p s) = counter p"
  by (simp add: logStats_def printStats_def Let_def split: option.split)

lemma logStats_stopC: "stopC (logStats p s) = stopC p"
  by (simp add: logStats_def printStats_def Let_def split: option.split)

lemma logStats_stopOnce: "stopOnce (logStats p s) = stopOnce p"
  by (simp add: logStats_def printStats_def Let_def split: option.split)

section \<open>The summary's average\<close>

text \<open>
  C2: the claim asks for a guarded division; \<^verbatim>\<open>Summarize\<close> divides by \<^verbatim>\<open>p.total\<close> without
  a test. On a Pinger that has folded no record the call panics, and this is where a run
  stands that is interrupted before its first probe returns.
\<close>

theorem Summarize_zero_probes_panics:
  "Summarize (NewPinger w u ival cnt) = Inl IntegerDivideByZero \<and>
   (\<exists>p. Ping (NewPinger w u ival cnt) [ExtStop, DoneC] = Inr (Stopped, 0, p) \<and>
        Summarize p = Inl IntegerDivideByZero)"
  by (simp add: Summarize_def NewPinger_def quo_def and_then_def Ping_def Stop_def)

text \<open>
  C9: \<^verbatim>\<open>Result.Avg\<close> never panics; it is 0 when \<^verbatim>\<open>SuccessCounter\<close> is 0 and otherwise
  the quotient of \<^verbatim>\<open>TotalDuration\<close> by \<^verbatim>\<open>SuccessCounter\<close>, truncated towards zero.
  \<^verbatim>\<open>Pinger.Summarize\<close>, when \<^verbatim>\<open>p.total\<close> is not 0, prints the quotient of
  \<^verbatim>\<open>totalDuration\<close> by \<^verbatim>\<open>total\<close>, the count of all attempts.
\<close>

theorem Avg_over_successes:
  "Avg r = Inr (if SuccessCounter r = 0 then 0
                else word_of_int (sint (TotalDuration r) sdiv sint (SuccessCounter r))) \<and>
   (total_n p \<noteq> 0 \<longrightarrow>
      Summarize p = Inr (p\<lparr>out := out p @
         [Fprintf tpl [Str (url p), Num (total_n p), Num (total_n p - failedTotal p),
                       Num (failedTotal p), Dur (minDuration p), Dur (maxDuration p),
                       Dur (word_of_int (sint (totalDuration p) sdiv sint (total_n p)))]]\<rparr>))"
  by (simp add: Avg_def Summarize_def quo_def and_then_def)

theorem Avg_over_successes_witness:
  "Avg \<lparr> Counter = 4, SuccessCounter = 2, MinDuration = 3, MaxDuration = 7,
         TotalDuration = 10 \<rparr> = Inr 5 \<and>
   total_n ((NewPinger [] ''tcp://example.com:80'' 0 0)
              \<lparr>totalDuration := 10, total_n := 4, failedTotal := 2\<rparr>) \<noteq> 0 \<and>
   Summarize ((NewPinger [] ''tcp://example.com:80'' 0 0)
              \<lparr>totalDuration := 10, total_n := 4, failedTotal := 2\<rparr>) =
     Inr ((NewPinger [] ''tcp://example.com:80'' 0 0)
              \<lparr>totalDuration := 10, total_n := 4, failedTotal := 2,
               out := [Fprintf tpl [Str ''tcp://example.com:80'', Num 4, Num 2, Num 2,
                                    Dur 0, Dur 0, Dur 2]]\<rparr>)"
  using Avg_over_successes
    [of "\<lparr> Counter = 4, SuccessCounter = 2, MinDuration = 3, MaxDuration = 7,
           TotalDuration = 10 \<rparr>"
        "(NewPinger [] ''tcp://example.com:80'' 0 0)
              \<lparr>totalDuration := 10, total_n := 4, failedTotal := 2\<rparr>"]
  by (simp add: NewPinger_def signed_divide_int_def)

section \<open>Stopping\<close>

lemma Stop_times_stopped: "stopOnce p \<Longrightarrow> Stop_times n p = Inr p"
  by (induction n) (auto simp: Stop_def and_then_def)

text \<open>
  C7: in every state of the Pinger, two or more calls of \<^verbatim>\<open>Stop\<close> in a row end as one
  call does: in the same state, or in the same panic.
\<close>

theorem Stop_idempotent:
  "Stop_times (Suc (Suc n)) p = Stop p \<and> and_then (Stop p) Stop = Stop p"
  apply (cases "Stop p")
   apply (simp add: and_then_def)
  apply (auto simp: and_then_def Stop_def Stop_times_stopped split: if_splits)
  done

section \<open>The registry\<close>

lemma fold_Register_other:
  "q \<notin> fst ` set regs \<Longrightarrow>
   fold (\<lambda>(protocol, factory). Register protocol factory) regs m q = m q"
  by (induction regs arbitrary: m) (auto simp: Register_def)

text \<open>
  C8: after \<^verbatim>\<open>Register(p, f1)\<close> and \<^verbatim>\<open>Register(p, f2)\<close>, \<^verbatim>\<open>Load(p)\<close> is \<open>f2\<close>, whatever the
  map held before; and \<^verbatim>\<open>Load(q)\<close> is nil when no call has registered \<open>q\<close>. \<^verbatim>\<open>Register\<close>
  has no error to return.
\<close>

theorem Register_Load_last_write_wins:
  "Load p (Register p f2 (Register p f1 m)) = f2 \<and>
   (q \<notin> fst ` set regs \<longrightarrow> Load q (registered regs) = None)"
  by (simp add: Load_def Register_def registered_def fold_Register_other pinger_def)

theorem Register_Load_last_write_wins_witness:
  "Load TCP (Register TCP (Some (2::nat)) (Register TCP (Some 1) pinger)) = Some 2 \<and>
   HTTPS \<notin> fst ` set [(TCP, Some (1::nat)), (HTTP, Some 2)] \<and>
   Load HTTPS (registered [(TCP, Some (1::nat)), (HTTP, Some 2)]) = None"
  using Register_Load_last_write_wins
    [of TCP "Some (2::nat)" "Some 1" pinger HTTPS "[(TCP, Some (1::nat)), (HTTP, Some 2)]"]
  by (simp add: TCP_def HTTP_def HTTPS_def)

section \<open>Signed 64-bit values\<close>

lemma sint_MaxInt64: "sint MaxInt64 = 9223372036854775807"
  by (simp add: MaxInt64_def)

lemma sint_int64_range: "- 9223372036854775808 \<le> sint (x::int64) \<and> sint x \<le> 9223372036854775807"
  using sint_ge [of x] sint_lt [of x] by simp

lemma sint_add_int64:
  "- 9223372036854775808 \<le> sint a + sint b \<Longrightarrow> sint a + sint b \<le> 9223372036854775807 \<Longrightarrow>
   sint (a + b :: int64) = sint a + sint b"
  by (simp add: sint_word_add signed_take_bit_int_eq_self)

lemma sint_of_int_int64:
  "- 9223372036854775808 \<le> k \<Longrightarrow> k \<le> 9223372036854775807 \<Longrightarrow> sint (word_of_int k :: int64) = k"
  by (simp add: sint_sbintrunc' signed_take_bit_int_eq_self)

lemma sint_of_nat_int64: "n < 9223372036854775808 \<Longrightarrow> sint (of_nat n :: int64) = int n"
proof -
  assume "n < 9223372036854775808"
  then have "int n \<le> 9223372036854775807" by simp
  then have "sint (word_of_int (int n) :: int64) = int n"
    by (intro sint_of_int_int64) simp_all
  then show ?thesis by simp
qed

lemma sint_minus_one_int64: "0 < sint (c::int64) \<Longrightarrow> sint (c - 1) = sint c - 1"
  using sint_int64_range [of c]
  by (simp add: sint_word_diff signed_take_bit_int_eq_self)

lemma Min_insert_min:
  "finite S \<Longrightarrow> Min (insert (min a b) S) = Min (insert (a::int) (insert b S))"
  by (cases "S = {}") (simp_all add: min.assoc)

lemma Max_insert_max:
  "finite S \<Longrightarrow> Max (insert (max a b) S) = Max (insert (a::int) (insert b S))"
  by (cases "S = {}") (simp_all add: max.assoc)

section \<open>One step of the loop and a run of steps\<close>

lemma tick_minDuration:
  "sint (minDuration (tick p s)) = min (sint (minDuration p)) (sint (Duration s))"
  by (simp add: tick_def Let_def logStats_minDuration word_sless_alt)

lemma tick_maxDuration:
  "sint (maxDuration (tick p s)) = max (sint (maxDuration p)) (sint (Duration s))"
  by (simp add: tick_def Let_def logStats_maxDuration word_sless_alt)

lemma tick_totalDuration: "totalDuration (tick p s) = totalDuration p + Duration s"
  by (simp add: tick_def Let_def logStats_totalDuration)

lemma tick_total_n: "total_n (tick p s) = total_n p + 1"
  by (simp add: tick_def Let_def logStats_total_n)

lemma tick_failedTotal:
  "failedTotal (tick p s) = (if Error s = None then failedTotal p else failedTotal p + 1)"
  by (simp add: tick_def Let_def logStats_failedTotal)

lemma tick_counter: "counter (tick p s) = counter p"
  by (simp add: tick_def Let_def logStats_counter)

lemma tick_stopC: "stopC (tick p s) = stopC p"
  by (simp add: tick_def Let_def logStats_stopC)

lemma tick_stopOnce: "stopOnce (tick p s) = stopOnce p"
  by (simp add: tick_def Let_def logStats_stopOnce)

lemma tick_min_le_max: "minDuration (tick p s) \<le>s maxDuration (tick p s)"
  by (simp add: word_sle_eq tick_minDuration tick_maxDuration)

lemma tick_flags:
  "tick (p\<lparr>stopOnce := a, stopC := b\<rparr>) s = (tick p s)\<lparr>stopOnce := a, stopC := b\<rparr>"
  by (simp add: tick_def logStats_def printStats_def Let_def split: option.split)

lemma foldl_tick_minDuration:
  "sint (minDuration (foldl tick p ss)) =
     Min (insert (sint (minDuration p)) ((\<lambda>s. sint (Duration s)) ` set ss))"
proof (induction ss arbitrary: p)
  case Nil
  show ?case by simp
next
  case (Cons s ss)
  have "Min (insert (sint (minDuration (tick p s))) ((\<lambda>s. sint (Duration s)) ` set ss)) =
        Min (insert (sint (minDuration p)) (insert (sint (Duration s)) ((\<lambda>s. sint (Duration s)) ` set ss)))"
    by (simp add: tick_minDuration Min_insert_min)
  then show ?case using Cons.IH [of "tick p s"] by simp
qed

lemma foldl_tick_maxDuration:
  "sint (maxDuration (foldl tick p ss)) =
     Max (insert (sint (maxDuration p)) ((\<lambda>s. sint (Duration s)) ` set ss))"
proof (induction ss arbitrary: p)
  case Nil
  show ?case by simp
next
  case (Cons s ss)
  have "Max (insert (sint (maxDuration (tick p s))) ((\<lambda>s. sint (Duration s)) ` set ss)) =
        Max (insert (sint (maxDuration p)) (insert (sint (Duration s)) ((\<lambda>s. sint (Duration s)) ` set ss)))"
    by (simp add: tick_maxDuration Max_insert_max)
  then show ?case using Cons.IH [of "tick p s"] by simp
qed

lemma foldl_tick_totalDuration:
  "totalDuration (foldl tick p ss) = totalDuration p + sum_list (map Duration ss)"
  by (induction ss arbitrary: p) (simp_all add: tick_totalDuration add.assoc)

lemma foldl_tick_total_n:
  "total_n (foldl tick p ss) = total_n p + of_nat (length ss)"
  by (induction ss arbitrary: p) (simp_all add: tick_total_n add.assoc)

lemma foldl_tick_failedTotal:
  "failedTotal (foldl tick p ss) =
     failedTotal p + of_nat (length (filter (\<lambda>s. Error s \<noteq> None) ss))"
  by (induction ss arbitrary: p) (simp_all add: tick_failedTotal add.assoc)

lemma foldl_tick_counter: "counter (foldl tick p ss) = counter p"
  by (induction ss arbitrary: p) (simp_all add: tick_counter)

lemma foldl_tick_stopC: "stopC (foldl tick p ss) = stopC p"
  by (induction ss arbitrary: p) (simp_all add: tick_stopC)

lemma foldl_tick_stopOnce: "stopOnce (foldl tick p ss) = stopOnce p"
  by (induction ss arbitrary: p) (simp_all add: tick_stopOnce)

lemma foldl_tick_flags:
  "foldl tick (p\<lparr>stopOnce := a, stopC := b\<rparr>) ss = (foldl tick p ss)\<lparr>stopOnce := a, stopC := b\<rparr>"
  by (induction ss arbitrary: p) (simp_all add: tick_flags)

lemma sum_list_sint:
  "(word_of_int (\<Sum>s\<leftarrow>ss. sint (Duration s)) :: int64) = sum_list (map Duration ss)"
  by (induction ss) simp_all

section \<open>The failure tally\<close>

text \<open>
  C1, as the code has it: folding a record adds one to \<open>failedTotal\<close> exactly when the
  record's error is not nil, the cancellation error included; a cancelled probe counts
  in the failure tally as well as in the total, which the loop's step \<open>tick\<close> increments
  for every record. After a run the failure tally is the number of folded records with
  an error, and the total is the number of folded records.
\<close>

theorem logStats_counts_every_error:
  "failedTotal (logStats p s) = (if Error s = None then failedTotal p else failedTotal p + 1) \<and>
   (failedTotal (logStats p s) = failedTotal p + 1) = (Error s \<noteq> None) \<and>
   failedTotal (tick p s) = failedTotal (logStats p s) \<and>
   total_n (tick p s) = total_n p + 1 \<and>
   failedTotal (folded ss (NewPinger w u ival c)) =
     of_nat (length (filter (\<lambda>s. Error s \<noteq> None) ss)) \<and>
   total_n (folded ss (NewPinger w u ival c)) = of_nat (length ss)"
proof -
  have step: "failedTotal (logStats p s) =
      (if Error s = None then failedTotal p else failedTotal p + 1)"
    by (rule logStats_failedTotal)
  have "failedTotal (folded ss (NewPinger w u ival c)) =
      of_nat (length (filter (\<lambda>s. Error s \<noteq> None) ss))"
    by (simp add: folded_def foldl_tick_failedTotal NewPinger_def)
  moreover have "total_n (folded ss (NewPinger w u ival c)) = of_nat (length ss)"
    by (simp add: folded_def foldl_tick_total_n NewPinger_def)
  ultimately show ?thesis
    using step by (simp add: tick_failedTotal tick_total_n)
qed

text \<open>
  C1 as stated fails: a record whose error is \<^verbatim>\<open>context.Canceled\<close> raises the failure
  tally of a fresh Pinger from 0 to 1.
\<close>

theorem logStats_counts_cancellation:
  "errors_Is Canceled Canceled \<and>
   failedTotal (logStats
      \<lparr> stopOnce = False, stopC = False, out = [], url = ''tcp://example.com:80'',
        interval = 0, counter = 0, minDuration = 0, maxDuration = 0, totalDuration = 0,
        total_n = 0, failedTotal = 0 \<rparr>
      \<lparr> Connected = False, Error = Some Canceled, Duration = 5, DNSDuration = 0,
        Address = [], Meta = [], Extra = None \<rparr>) = 1"
  by (simp add: logStats_def Let_def word_sless_alt)

section \<open>The loop\<close>

lemma exhausted_iff:
  assumes "counter p = c" "total_n p = of_nat m" "m \<le> nat (sint c)"
  shows "exhausted p \<longleftrightarrow> 0 < sint c \<and> m = nat (sint c)"
proof (cases "0 < sint c")
  case False
  then show ?thesis by (simp add: exhausted_def word_sless_alt assms(1))
next
  case True
  have "m < 9223372036854775808"
    using assms(3) sint_int64_range [of c] by linarith
  then have "sint (of_nat m :: int64) = int m" by (rule sint_of_nat_int64)
  then show ?thesis
    using True assms by (auto simp: exhausted_def word_sless_alt sint_minus_one_int64)
qed

lemma loop_unbounded:
  "\<not> 0 <s counter p \<Longrightarrow>
   loop n p (map TimerC ss) = Inr (False, n + length ss, foldl tick p ss)"
  by (induction ss arbitrary: n p) (simp_all add: exhausted_def tick_counter)

lemma loop_unbounded_then:
  "\<not> 0 <s counter p \<Longrightarrow>
   loop n p (map TimerC ss @ es) = loop (n + length ss) (foldl tick p ss) es"
  by (induction ss arbitrary: n p) (simp_all add: exhausted_def tick_counter)

lemma loop_below_bound:
  "counter p = c \<Longrightarrow> total_n p = of_nat k \<Longrightarrow> k + length ss < nat (sint c) \<Longrightarrow>
   loop n p (map TimerC ss @ es) = loop (n + length ss) (foldl tick p ss) es"
proof (induction ss arbitrary: n p k)
  case Nil
  show ?case by simp
next
  case (Cons s ss)
  have t: "total_n (tick p s) = of_nat (Suc k)"
    by (simp add: tick_total_n Cons.prems(2))
  have c: "counter (tick p s) = c"
    by (simp add: tick_counter Cons.prems(1))
  have "\<not> exhausted (tick p s)"
    using exhausted_iff [OF c t] Cons.prems(3) by simp
  moreover have "loop (Suc n) (tick p s) (map TimerC ss @ es) =
      loop (Suc n + length ss) (foldl tick (tick p s) ss) es"
    using Cons.IH [OF c t] Cons.prems(3) by simp
  ultimately show ?case by simp
qed

lemma loop_at_bound:
  assumes "counter p = c" "total_n p = of_nat k" "Suc k = nat (sint c)"
  shows "loop n p (TimerC s # es) = Inr (True, Suc n, tick p s)"
proof -
  have t: "total_n (tick p s) = of_nat (Suc k)"
    by (simp add: tick_total_n assms(2))
  have c: "counter (tick p s) = c"
    by (simp add: tick_counter assms(1))
  have "exhausted (tick p s)"
    using exhausted_iff [OF c t] assms(3) by simp
  then show ?thesis by simp
qed

lemma Stop_fields:
  "Stop p = Inr p' \<Longrightarrow> counter p' = counter p \<and> total_n p' = total_n p"
  by (auto simp: Stop_def split: if_splits)

lemma Stop_open: "\<not> stopOnce p \<Longrightarrow> \<not> stopC p \<Longrightarrow> Stop p = Inr (p\<lparr>stopOnce := True, stopC := True\<rparr>)"
  by (simp add: Stop_def)

lemma Stop_flags: "Stop p = Inr p' \<Longrightarrow> p' = p\<lparr>stopOnce := stopOnce p', stopC := stopC p'\<rparr>"
  by (auto simp: Stop_def split: if_splits)

lemma loop_stopC:
  "loop n p es = Inr (b, n', p') \<Longrightarrow> stopC p' \<Longrightarrow> stopC p \<or> ExtStop \<in> set es"
proof (induction n p es rule: loop.induct)
  case (1 n p)
  then show ?case by simp
next
  case (2 n p stats es)
  then show ?case by (auto simp: tick_stopC split: if_splits)
next
  case (3 n p es)
  then show ?case by (auto split: if_splits)
next
  case (4 n p es)
  then show ?case by simp
qed

lemma loop_leaves:
  "loop n p es = Inr (True, n', p') \<Longrightarrow> counter p = c \<Longrightarrow> total_n p = of_nat n \<Longrightarrow>
   (0 < sint c \<longrightarrow> n < nat (sint c)) \<Longrightarrow>
   (DoneC \<in> set es \<and> stopC p') \<or> (0 < sint c \<and> n' = nat (sint c))"
proof (induction n p es rule: loop.induct)
  case (1 n p)
  then show ?case by simp
next
  case (2 n p stats es)
  have t: "total_n (tick p stats) = of_nat (Suc n)"
    by (simp add: tick_total_n "2.prems"(3))
  have c: "counter (tick p stats) = c"
    by (simp add: tick_counter "2.prems"(2))
  show ?case
  proof (cases "exhausted (tick p stats)")
    case True
    then have "0 < sint c" by (simp add: exhausted_def word_sless_alt c)
    then have "Suc n \<le> nat (sint c)" using "2.prems"(4) by simp
    then have "Suc n = nat (sint c)" using exhausted_iff [OF c t] True by simp
    moreover have "n' = Suc n" using "2.prems"(1) True by simp
    ultimately show ?thesis using \<open>0 < sint c\<close> by simp
  next
    case False
    have "0 < sint c \<longrightarrow> Suc n < nat (sint c)"
    proof
      assume pos: "0 < sint c"
      then have le: "Suc n \<le> nat (sint c)" using "2.prems"(4) by simp
      show "Suc n < nat (sint c)"
        using exhausted_iff [OF c t le] False pos le by simp
    qed
    moreover have "loop (Suc n) (tick p stats) es = Inr (True, n', p')"
      using "2.prems"(1) False by simp
    ultimately show ?thesis
      using "2.IH" [OF False _ c t] by auto
  qed
next
  case (3 n p es)
  then show ?case by (auto split: if_splits)
next
  case (4 n p es)
  then show ?case
    by (cases "Stop p") (auto simp: and_then_def dest: Stop_fields)
qed

lemma loop_no_panic:
  "(stopC p \<longrightarrow> stopOnce p) \<Longrightarrow>
   \<exists>b n' p'. loop n p es = Inr (b, n', p') \<and> (stopC p' \<longrightarrow> stopOnce p')"
proof (induction n p es rule: loop.induct)
  case (1 n p)
  then show ?case by auto
next
  case (2 n p stats es)
  then show ?case by (auto simp: tick_stopC tick_stopOnce)
next
  case (3 n p es)
  then show ?case by auto
next
  case (4 n p es)
  then show ?case by (auto simp: Stop_def and_then_def)
qed

lemma loop_folds:
  "loop n p es = Inr (b, n', p') \<Longrightarrow>
   \<exists>ss. n' = n + length ss \<and> p' = (foldl tick p ss)\<lparr>stopOnce := stopOnce p', stopC := stopC p'\<rparr>"
proof (induction n p es rule: loop.induct)
  case (1 n p)
  then have "n' = n + length ([]::Stats list) \<and>
     p' = (foldl tick p [])\<lparr>stopOnce := stopOnce p', stopC := stopC p'\<rparr>" by auto
  then show ?case by blast
next
  case (2 n p stats es)
  show ?case
  proof (cases "exhausted (tick p stats)")
    case True
    then have "n' = n + length [stats] \<and>
       p' = (foldl tick p [stats])\<lparr>stopOnce := stopOnce p', stopC := stopC p'\<rparr>"
      using "2.prems" by auto
    then show ?thesis by blast
  next
    case False
    then obtain ss where "n' = Suc n + length ss"
      "p' = (foldl tick (tick p stats) ss)\<lparr>stopOnce := stopOnce p', stopC := stopC p'\<rparr>"
      using "2.IH" "2.prems" by auto
    then have "n' = n + length (stats # ss) \<and>
       p' = (foldl tick p (stats # ss))\<lparr>stopOnce := stopOnce p', stopC := stopC p'\<rparr>"
      by simp
    then show ?thesis by blast
  qed
next
  case (3 n p es)
  show ?case
  proof (cases "stopC p")
    case True
    then have "n' = n + length ([]::Stats list) \<and>
       p' = (foldl tick p [])\<lparr>stopOnce := stopOnce p', stopC := stopC p'\<rparr>"
      using "3.prems" by auto
    then show ?thesis by blast
  next
    case False
    then show ?thesis using "3.IH" "3.prems" by simp
  qed
next
  case (4 n p es)
  then obtain p1 where p1: "Stop p = Inr p1" "loop n p1 es = Inr (b, n', p')"
    by (cases "Stop p") (auto simp: and_then_def)
  then obtain ss where ss: "n' = n + length ss"
      "p' = (foldl tick p1 ss)\<lparr>stopOnce := stopOnce p', stopC := stopC p'\<rparr>"
    using "4.IH" by blast
  have "p1 = p\<lparr>stopOnce := stopOnce p1, stopC := stopC p1\<rparr>" using p1(1) by (rule Stop_flags)
  then have "foldl tick p1 ss = (foldl tick p ss)\<lparr>stopOnce := stopOnce p1, stopC := stopC p1\<rparr>"
    using foldl_tick_flags [where p = p and a = "stopOnce p1" and b = "stopC p1" and ss = ss] by simp
  then have "p' = (foldl tick p ss)\<lparr>stopOnce := stopOnce p', stopC := stopC p'\<rparr>"
    using ss(2) by simp
  then show ?case using ss(1) by blast
qed

lemma start_fields:
  "counter ((NewPinger w u ival c)\<lparr>minDuration := MaxInt64\<rparr>) = c"
  "total_n ((NewPinger w u ival c)\<lparr>minDuration := MaxInt64\<rparr>) = 0"
  "failedTotal ((NewPinger w u ival c)\<lparr>minDuration := MaxInt64\<rparr>) = 0"
  "maxDuration ((NewPinger w u ival c)\<lparr>minDuration := MaxInt64\<rparr>) = 0"
  "totalDuration ((NewPinger w u ival c)\<lparr>minDuration := MaxInt64\<rparr>) = 0"
  "minDuration ((NewPinger w u ival c)\<lparr>minDuration := MaxInt64\<rparr>) = MaxInt64"
  "stopC ((NewPinger w u ival c)\<lparr>minDuration := MaxInt64\<rparr>) = False"
  "stopOnce ((NewPinger w u ival c)\<lparr>minDuration := MaxInt64\<rparr>) = False"
  by (simp_all add: NewPinger_def)

lemma Ping_no_panic: "\<exists>ph n p'. Ping (NewPinger w u ival c) es = Inr (ph, n, p')"
proof -
  obtain b n' p' where l: "loop 0 ((NewPinger w u ival c)\<lparr>minDuration := MaxInt64\<rparr>) es = Inr (b, n', p')"
    and i: "stopC p' \<longrightarrow> stopOnce p'"
    using loop_no_panic [of "(NewPinger w u ival c)\<lparr>minDuration := MaxInt64\<rparr>" 0 es]
    by (auto simp: NewPinger_def)
  show ?thesis using l i by (auto simp: Ping_def and_then_def Stop_def)
qed

lemma Ping_bounded:
  assumes "0 <s c" "length ss = nat (sint c)"
  shows "Ping (NewPinger w u ival c) (map TimerC ss @ rest) =
     Inr (Stopped, nat (sint c),
          (foldl tick ((NewPinger w u ival c)\<lparr>minDuration := MaxInt64\<rparr>) ss)
            \<lparr>stopOnce := True, stopC := True\<rparr>)"
proof -
  let ?start = "(NewPinger w u ival c)\<lparr>minDuration := MaxInt64\<rparr>"
  have pos: "0 < sint c" using assms(1) by (simp add: word_sless_alt)
  then have "ss \<noteq> []" using assms(2) by auto
  then obtain ss' s where ss: "ss = ss' @ [s]" by (metis rev_exhaust)
  have len: "Suc (length ss') = nat (sint c)" using assms(2) ss by simp
  have "loop 0 ?start (map TimerC ss' @ (TimerC s # rest)) =
        loop (0 + length ss') (foldl tick ?start ss') (TimerC s # rest)"
    by (rule loop_below_bound [where c = c and k = 0]) (use len in \<open>simp_all add: start_fields\<close>)
  also have "\<dots> = Inr (True, Suc (length ss'), tick (foldl tick ?start ss') s)"
    using loop_at_bound [where p = "foldl tick ?start ss'" and c = c and k = "length ss'"]
      len by (simp add: foldl_tick_counter foldl_tick_total_n start_fields)
  finally have "loop 0 ?start (map TimerC ss @ rest) = Inr (True, nat (sint c), foldl tick ?start ss)"
    using ss len by simp
  then show ?thesis
    by (simp add: Ping_def and_then_def Stop_open foldl_tick_stopC foldl_tick_stopOnce start_fields)
qed

lemma Ping_below_bound:
  assumes "0 <s c" "length ss < nat (sint c)"
  shows "Ping (NewPinger w u ival c) (map TimerC ss) =
     Inr (Running, length ss, foldl tick ((NewPinger w u ival c)\<lparr>minDuration := MaxInt64\<rparr>) ss)"
proof -
  let ?start = "(NewPinger w u ival c)\<lparr>minDuration := MaxInt64\<rparr>"
  have "loop 0 ?start (map TimerC ss @ []) = loop (0 + length ss) (foldl tick ?start ss) []"
    by (rule loop_below_bound [where c = c and k = 0]) (use assms(2) in \<open>simp_all add: start_fields\<close>)
  then show ?thesis by (simp add: Ping_def and_then_def)
qed

lemma Ping_unbounded:
  assumes "c \<le>s 0"
  shows "Ping (NewPinger w u ival c) (map TimerC ss) =
     Inr (Running, length ss, foldl tick ((NewPinger w u ival c)\<lparr>minDuration := MaxInt64\<rparr>) ss)"
proof -
  let ?start = "(NewPinger w u ival c)\<lparr>minDuration := MaxInt64\<rparr>"
  have "\<not> 0 <s counter ?start"
    using assms by (simp add: start_fields word_sless_alt word_sle_eq)
  then have "loop 0 ?start (map TimerC ss) = Inr (False, 0 + length ss, foldl tick ?start ss)"
    by (rule loop_unbounded)
  then show ?thesis by (simp add: Ping_def and_then_def)
qed

lemma Ping_unbounded_stop:
  assumes "c \<le>s 0"
  shows "Ping (NewPinger w u ival c) (map TimerC ss @ ExtStop # DoneC # rest) =
     Inr (Stopped, length ss,
          (foldl tick ((NewPinger w u ival c)\<lparr>minDuration := MaxInt64\<rparr>) ss)
            \<lparr>stopOnce := True, stopC := True\<rparr>)"
proof -
  let ?start = "(NewPinger w u ival c)\<lparr>minDuration := MaxInt64\<rparr>"
  have "\<not> 0 <s counter ?start"
    using assms by (simp add: start_fields word_sless_alt word_sle_eq)
  then have "loop 0 ?start (map TimerC ss @ ExtStop # DoneC # rest) =
      loop (0 + length ss) (foldl tick ?start ss) (ExtStop # DoneC # rest)"
    by (rule loop_unbounded_then)
  then show ?thesis
    by (simp add: Ping_def and_then_def Stop_def foldl_tick_stopC foldl_tick_stopOnce start_fields)
qed

lemma Ping_leaves:
  assumes "Ping (NewPinger w u ival c) es = Inr (Stopped, n, p')"
  shows "(ExtStop \<in> set es \<and> DoneC \<in> set es) \<or> (0 <s c \<and> n = nat (sint c))"
proof -
  let ?start = "(NewPinger w u ival c)\<lparr>minDuration := MaxInt64\<rparr>"
  obtain b n1 p1 where l: "loop 0 ?start es = Inr (b, n1, p1)"
    using assms by (cases "loop 0 ?start es") (auto simp: Ping_def and_then_def)
  have b: "b" and n1: "n1 = n"
    using assms l by (auto simp: Ping_def and_then_def split: if_splits sum.splits)
  have "(DoneC \<in> set es \<and> stopC p1) \<or> (0 < sint c \<and> n1 = nat (sint c))"
    by (rule loop_leaves [where n = 0 and p = ?start]) (use l b in \<open>simp_all add: start_fields\<close>)
  moreover have "stopC p1 \<longrightarrow> ExtStop \<in> set es"
    using loop_stopC [OF l] by (simp add: start_fields)
  ultimately show ?thesis using n1 by (auto simp: word_sless_alt)
qed

lemma Ping_folds:
  assumes "Ping (NewPinger w u ival c) es = Inr (ph, n, p')"
  shows "\<exists>ss. length ss = n \<and>
     p' = (folded ss (NewPinger w u ival c))\<lparr>stopOnce := stopOnce p', stopC := stopC p'\<rparr>"
proof -
  let ?start = "(NewPinger w u ival c)\<lparr>minDuration := MaxInt64\<rparr>"
  obtain b n1 p1 where l: "loop 0 ?start es = Inr (b, n1, p1)"
    using assms by (cases "loop 0 ?start es") (auto simp: Ping_def and_then_def)
  obtain ss where ss: "n1 = 0 + length ss"
      "p1 = (foldl tick ?start ss)\<lparr>stopOnce := stopOnce p1, stopC := stopC p1\<rparr>"
    using loop_folds [OF l] by blast
  have n: "n = n1" and p: "(b \<and> Stop p1 = Inr p') \<or> p' = p1"
    using assms l by (auto simp: Ping_def and_then_def split: if_splits sum.splits)
  from p have "p' = p1\<lparr>stopOnce := stopOnce p', stopC := stopC p'\<rparr>"
  proof
    assume "b \<and> Stop p1 = Inr p'"
    then show ?thesis using Stop_flags [of p1 p'] by simp
  next
    assume "p' = p1"
    then show ?thesis by simp
  qed
  then have "p' = ((foldl tick ?start ss)\<lparr>stopOnce := stopOnce p1, stopC := stopC p1\<rparr>)
      \<lparr>stopOnce := stopOnce p', stopC := stopC p'\<rparr>"
    using ss(2) by simp
  then have "p' = (foldl tick ?start ss)\<lparr>stopOnce := stopOnce p', stopC := stopC p'\<rparr>"
    by simp
  then show ?thesis using ss(1) n by (auto simp: folded_def)
qed

text \<open>
  C3: from a new Pinger with counter \<open>c\<close>. When \<open>0 < c\<close> and the schedule holds no stop,
  the loop calls the probe \<open>c\<close> times and is left after the \<open>c\<close>-th call, whatever follows
  in the schedule; before the \<open>c\<close>-th call it is still running. When \<open>c \<le> 0\<close> the loop is
  still running after any number of probes, and is left once another task has called
  \<^verbatim>\<open>Stop\<close> and the \<^verbatim>\<open>select\<close> takes the closed channel. A run that has left the loop has
  either seen a stop or made exactly \<open>c\<close> calls with \<open>0 < c\<close>; no run panics.
\<close>

theorem Ping_honours_counter:
  "(0 <s c \<and> length ss = nat (sint c) \<longrightarrow>
      Ping (NewPinger w u ival c) (map TimerC ss @ rest) =
        Inr (Stopped, nat (sint c),
             (foldl tick ((NewPinger w u ival c)\<lparr>minDuration := MaxInt64\<rparr>) ss)
                \<lparr>stopOnce := True, stopC := True\<rparr>)) \<and>
   (0 <s c \<and> length ss < nat (sint c) \<longrightarrow>
      Ping (NewPinger w u ival c) (map TimerC ss) =
        Inr (Running, length ss,
             foldl tick ((NewPinger w u ival c)\<lparr>minDuration := MaxInt64\<rparr>) ss)) \<and>
   (c \<le>s 0 \<longrightarrow>
      Ping (NewPinger w u ival c) (map TimerC ss) =
        Inr (Running, length ss,
             foldl tick ((NewPinger w u ival c)\<lparr>minDuration := MaxInt64\<rparr>) ss) \<and>
      Ping (NewPinger w u ival c) (map TimerC ss @ ExtStop # DoneC # rest) =
        Inr (Stopped, length ss,
             (foldl tick ((NewPinger w u ival c)\<lparr>minDuration := MaxInt64\<rparr>) ss)
                \<lparr>stopOnce := True, stopC := True\<rparr>)) \<and>
   (Ping (NewPinger w u ival c) es = Inr (Stopped, n, p') \<longrightarrow>
      (ExtStop \<in> set es \<and> DoneC \<in> set es) \<or> (0 <s c \<and> n = nat (sint c))) \<and>
   (\<exists>ph k q. Ping (NewPinger w u ival c) es = Inr (ph, k, q))"
  using Ping_bounded [of c ss w u ival rest] Ping_below_bound [of c ss w u ival]
    Ping_unbounded [of c w u ival ss] Ping_unbounded_stop [of c w u ival ss rest]
    Ping_leaves [of w u ival c es n p'] Ping_no_panic [of w u ival c es]
  by blast

theorem Ping_honours_counter_witness:
  "0 <s (3::int64) \<and> length [stats_ok 5, stats_ok 7, stats_ok 6] = nat (sint (3::int64)) \<and>
   Ping (NewPinger [] ''tcp://example.com:80'' 0 3)
        (map TimerC [stats_ok 5, stats_ok 7, stats_ok 6] @ [TimerC (stats_ok 9)]) =
     Inr (Stopped, 3,
          (foldl tick ((NewPinger [] ''tcp://example.com:80'' 0 3)\<lparr>minDuration := MaxInt64\<rparr>)
             [stats_ok 5, stats_ok 7, stats_ok 6])\<lparr>stopOnce := True, stopC := True\<rparr>) \<and>
   length [stats_ok 5, stats_ok 7] < nat (sint (3::int64)) \<and>
   Ping (NewPinger [] ''tcp://example.com:80'' 0 3) (map TimerC [stats_ok 5, stats_ok 7]) =
     Inr (Running, 2,
          foldl tick ((NewPinger [] ''tcp://example.com:80'' 0 3)\<lparr>minDuration := MaxInt64\<rparr>)
             [stats_ok 5, stats_ok 7]) \<and>
   (0::int64) \<le>s 0 \<and>
   Ping (NewPinger [] ''tcp://example.com:80'' 0 0) (map TimerC [stats_ok 5, stats_ok 7]) =
     Inr (Running, 2,
          foldl tick ((NewPinger [] ''tcp://example.com:80'' 0 0)\<lparr>minDuration := MaxInt64\<rparr>)
             [stats_ok 5, stats_ok 7]) \<and>
   Ping (NewPinger [] ''tcp://example.com:80'' 0 0)
        (map TimerC [stats_ok 5, stats_ok 7] @ ExtStop # DoneC # [TimerC (stats_ok 9)]) =
     Inr (Stopped, 2,
          (foldl tick ((NewPinger [] ''tcp://example.com:80'' 0 0)\<lparr>minDuration := MaxInt64\<rparr>)
             [stats_ok 5, stats_ok 7])\<lparr>stopOnce := True, stopC := True\<rparr>)"
  using Ping_honours_counter
      [of 3 "[stats_ok 5, stats_ok 7, stats_ok 6]" "[]" "''tcp://example.com:80''" 0
          "[TimerC (stats_ok 9)]"]
    Ping_honours_counter
      [of 3 "[stats_ok 5, stats_ok 7]" "[]" "''tcp://example.com:80''" 0]
    Ping_honours_counter
      [of 0 "[stats_ok 5, stats_ok 7]" "[]" "''tcp://example.com:80''" 0 "[TimerC (stats_ok 9)]"]
  by (simp add: word_sless_alt word_sle_eq)

section \<open>Minimum, maximum and total\<close>

lemma folded_min_from_MaxInt64:
  "sint (minDuration (folded ss p)) = Min (insert (sint MaxInt64) (set (durations ss)))"
  by (simp add: folded_def durations_def foldl_tick_minDuration)

lemma folded_max_from_zero:
  "sint (maxDuration (folded ss (NewPinger w u ival c))) = Max (insert 0 (set (durations ss)))"
  by (simp add: folded_def durations_def foldl_tick_maxDuration NewPinger_def)

lemma folded_min:
  assumes "ss \<noteq> []"
  shows "sint (minDuration (folded ss p)) = Min (set (durations ss))"
proof -
  let ?S = "(\<lambda>s. sint (Duration s)) ` set ss"
  have ne: "?S \<noteq> {}" and fin: "finite ?S" using assms by simp_all
  have "sint (Duration (hd ss)) \<in> ?S" using assms by simp
  then have "Min ?S \<le> sint (Duration (hd ss))" using fin by (rule_tac Min_le)
  then have "Min ?S \<le> sint MaxInt64"
    using sint_int64_range [of "Duration (hd ss)"] by (simp add: sint_MaxInt64)
  then have "min (sint MaxInt64) (Min ?S) = Min ?S" by (rule min_absorb2)
  then have "Min (insert (sint MaxInt64) ?S) = Min ?S"
    using Min_insert [OF fin ne, of "sint MaxInt64"] by (simp only:)
  then show ?thesis
    by (simp add: folded_def durations_def foldl_tick_minDuration)
qed

lemma folded_max:
  assumes "\<exists>s\<in>set ss. 0 \<le>s Duration s"
  shows "sint (maxDuration (folded ss (NewPinger w u ival c))) = Max (set (durations ss))"
proof -
  let ?S = "(\<lambda>s. sint (Duration s)) ` set ss"
  obtain s where s: "s \<in> set ss" "0 \<le> sint (Duration s)"
    using assms by (auto simp: word_sle_eq)
  have ne: "?S \<noteq> {}" and fin: "finite ?S" using s by auto
  have "sint (Duration s) \<le> Max ?S" using s fin by simp
  then have "0 \<le> Max ?S" using s by linarith
  then have "Max (insert 0 ?S) = Max ?S"
    using ne fin by (simp add: max_def)
  then show ?thesis
    by (simp add: folded_def durations_def foldl_tick_maxDuration NewPinger_def)
qed

lemma folded_total:
  "totalDuration (folded ss (NewPinger w u ival c)) = sum_list (map Duration ss)"
  by (simp add: folded_def foldl_tick_totalDuration NewPinger_def)

lemma folded_total_sint:
  assumes "- 9223372036854775808 \<le> sum_list (durations ss)"
    and "sum_list (durations ss) \<le> 9223372036854775807"
  shows "sint (totalDuration (folded ss (NewPinger w u ival c))) = sum_list (durations ss)"
proof -
  have "totalDuration (folded ss (NewPinger w u ival c)) = word_of_int (sum_list (durations ss))"
    by (simp add: folded_total durations_def sum_list_sint)
  then show ?thesis using assms by (simp add: sint_of_int_int64)
qed

text \<open>
  C5: after folding the records \<open>ss\<close> into a new Pinger, whatever their errors. The
  minimum is the least of \<^verbatim>\<open>math.MaxInt64\<close> and the durations, hence the least duration
  when there is a record. The maximum is the greatest of 0 and the durations, hence the
  greatest duration when one of them is not negative, as elapsed times are. The
  cumulative total is the sum of the durations in \<^verbatim>\<open>int64\<close> arithmetic, which is their
  sum when that fits in an \<^verbatim>\<open>int64\<close>. The three updates of \<^verbatim>\<open>logStats\<close> do not depend on
  the record's error.
\<close>

theorem logStats_min_max_total:
  "sint (minDuration (folded ss (NewPinger w u ival c))) =
      Min (insert (sint MaxInt64) (set (durations ss))) \<and>
   (ss \<noteq> [] \<longrightarrow>
      sint (minDuration (folded ss (NewPinger w u ival c))) = Min (set (durations ss))) \<and>
   sint (maxDuration (folded ss (NewPinger w u ival c))) = Max (insert 0 (set (durations ss))) \<and>
   ((\<exists>s\<in>set ss. 0 \<le>s Duration s) \<longrightarrow>
      sint (maxDuration (folded ss (NewPinger w u ival c))) = Max (set (durations ss))) \<and>
   totalDuration (folded ss (NewPinger w u ival c)) = sum_list (map Duration ss) \<and>
   (- 9223372036854775808 \<le> sum_list (durations ss) \<and>
    sum_list (durations ss) \<le> 9223372036854775807 \<longrightarrow>
      sint (totalDuration (folded ss (NewPinger w u ival c))) = sum_list (durations ss)) \<and>
   minDuration (logStats p (s\<lparr>Error := e\<rparr>)) = minDuration (logStats p s) \<and>
   maxDuration (logStats p (s\<lparr>Error := e\<rparr>)) = maxDuration (logStats p s) \<and>
   totalDuration (logStats p (s\<lparr>Error := e\<rparr>)) = totalDuration (logStats p s)"
  using folded_min [of ss "NewPinger w u ival c"] folded_max [of ss w u ival c]
    folded_total [of ss w u ival c] folded_total_sint [of ss w u ival c]
    folded_min_from_MaxInt64 [of ss "NewPinger w u ival c"] folded_max_from_zero [of ss w u ival c]
  by (simp add: logStats_minDuration logStats_maxDuration logStats_totalDuration)

theorem logStats_min_max_total_witness:
  "[stats_ok 5, stats_failed Canceled 3, stats_failed EOF 9] \<noteq> [] \<and>
   0 \<le>s Duration (stats_ok 5) \<and>
   durations [stats_ok 5, stats_failed Canceled 3, stats_failed EOF 9] = [5, 3, 9] \<and>
   sint (minDuration (folded [stats_ok 5, stats_failed Canceled 3, stats_failed EOF 9]
           (NewPinger [] ''tcp://example.com:80'' 0 0))) = 3 \<and>
   sint (maxDuration (folded [stats_ok 5, stats_failed Canceled 3, stats_failed EOF 9]
           (NewPinger [] ''tcp://example.com:80'' 0 0))) = 9 \<and>
   sint (totalDuration (folded [stats_ok 5, stats_failed Canceled 3, stats_failed EOF 9]
           (NewPinger [] ''tcp://example.com:80'' 0 0))) = 17"
  using logStats_min_max_total
    [where ss = "[stats_ok 5, stats_failed Canceled 3, stats_failed EOF 9]" and w = "[]"
       and u = "''tcp://example.com:80''" and ival = 0 and c = 0
       and p = "NewPinger [] ''tcp://example.com:80'' 0 0" and s = "stats_ok 5" and e = None]
  by (simp add: durations_def stats_ok_def stats_failed_def word_sle_eq sint_MaxInt64)

section \<open>The invariant of the accumulator\<close>

lemma accumulator_inv_tick:
  assumes "accumulator_inv p" "total_n p \<noteq> MaxInt64"
  shows "accumulator_inv (tick p s)"
proof -
  have t: "sint (total_n p) < 9223372036854775807"
  proof -
    have "sint (total_n p) \<noteq> sint MaxInt64"
      using assms(2) word_eq_iff_signed [where 'a = int, of "total_n p" MaxInt64] by simp
    then show ?thesis using sint_int64_range [of "total_n p"] by (simp add: sint_MaxInt64)
  qed
  have f: "0 \<le> sint (failedTotal p)" "sint (failedTotal p) \<le> sint (total_n p)"
    using assms(1) by (simp_all add: accumulator_inv_def word_sle_eq)
  have t1: "sint (total_n p + 1) = sint (total_n p) + 1"
    using t f by (simp add: sint_add_int64)
  have f1: "sint (failedTotal p + 1) = sint (failedTotal p) + 1"
    using t f by (simp add: sint_add_int64)
  show ?thesis
    using f t1 f1 tick_min_le_max [of p s]
    by (simp add: accumulator_inv_def word_sle_eq word_sless_alt tick_total_n tick_failedTotal)
qed

lemma folded_counts:
  assumes "length ss < 9223372036854775808"
  shows "total_n (folded ss (NewPinger w u ival c)) = of_nat (length ss)"
    and "sint (total_n (folded ss (NewPinger w u ival c))) = int (length ss)"
    and "sint (failedTotal (folded ss (NewPinger w u ival c))) =
           int (length (filter (\<lambda>s. Error s \<noteq> None) ss))"
proof -
  show t: "total_n (folded ss (NewPinger w u ival c)) = of_nat (length ss)"
    by (simp add: folded_def foldl_tick_total_n NewPinger_def)
  show "sint (total_n (folded ss (NewPinger w u ival c))) = int (length ss)"
    using assms by (simp add: t sint_of_nat_int64)
  have "length (filter (\<lambda>s. Error s \<noteq> None) ss) \<le> length ss" by simp
  then have "length (filter (\<lambda>s. Error s \<noteq> None) ss) < 9223372036854775808"
    using assms by linarith
  then show "sint (failedTotal (folded ss (NewPinger w u ival c))) =
           int (length (filter (\<lambda>s. Error s \<noteq> None) ss))"
    by (simp add: folded_def foldl_tick_failedTotal NewPinger_def sint_of_nat_int64)
qed

lemma folded_min_le_max:
  assumes "ss \<noteq> []"
  shows "minDuration (folded ss p) \<le>s maxDuration (folded ss p)"
proof -
  obtain ss' s where ss: "ss = ss' @ [s]" using assms by (metis rev_exhaust)
  show ?thesis by (simp add: ss folded_def tick_min_le_max)
qed

lemma folded_inv:
  assumes "length ss < 9223372036854775808"
  shows "accumulator_inv (folded ss (NewPinger w u ival c))"
proof -
  have "length (filter (\<lambda>s. Error s \<noteq> None) ss) \<le> length ss" by simp
  moreover have "0 <s total_n (folded ss (NewPinger w u ival c)) \<longrightarrow> ss \<noteq> []"
    using folded_counts(2) [OF assms, of w u ival c] by (auto simp: word_sless_alt)
  ultimately show ?thesis
    using folded_counts [OF assms, of w u ival c] folded_min_le_max [of ss "NewPinger w u ival c"]
    by (auto simp: accumulator_inv_def word_sle_eq)
qed

lemma accumulator_inv_flags:
  "accumulator_inv (p\<lparr>stopOnce := a, stopC := b\<rparr>) = accumulator_inv p"
  by (simp add: accumulator_inv_def)

lemma Ping_inv:
  assumes "Ping (NewPinger w u ival c) es = Inr (ph, n, p')" "n < 9223372036854775808"
  shows "sint (total_n p') = int n \<and> accumulator_inv p' \<and>
         (0 < n \<longrightarrow> minDuration p' \<le>s maxDuration p')"
proof -
  obtain ss where ss: "length ss = n"
    "p' = (folded ss (NewPinger w u ival c))\<lparr>stopOnce := stopOnce p', stopC := stopC p'\<rparr>"
    using Ping_folds [OF assms(1)] by blast
  let ?q = "folded ss (NewPinger w u ival c)"
  have len: "length ss < 9223372036854775808" using ss(1) assms(2) by simp
  have "total_n p' = total_n ?q" "minDuration p' = minDuration ?q"
    "maxDuration p' = maxDuration ?q" "accumulator_inv p' = accumulator_inv ?q"
    by (subst ss(2), simp add: accumulator_inv_flags)+
  then show ?thesis
    using folded_counts(2) [OF len, of w u ival c] folded_inv [OF len, of w u ival c]
      folded_min_le_max [of ss "NewPinger w u ival c"] ss(1)
    by auto
qed

text \<open>
  C6: after folding \<open>N\<close> records the field \<^verbatim>\<open>total\<close> is \<open>N\<close>, the failure count lies between 0
  and \<^verbatim>\<open>total\<close>, and the minimum is at most the maximum once a record has been folded;
  each step of the loop preserves this invariant (below the overflow of the counter), and
  it holds of the Pinger that \<^verbatim>\<open>Ping\<close> returns.
\<close>

theorem accumulator_invariant:
  "total_n (folded ss (NewPinger w u ival c)) = of_nat (length ss) \<and>
   (ss \<noteq> [] \<longrightarrow> minDuration (folded ss (NewPinger w u ival c))
                  \<le>s maxDuration (folded ss (NewPinger w u ival c))) \<and>
   (length ss < 9223372036854775808 \<longrightarrow>
      sint (total_n (folded ss (NewPinger w u ival c))) = int (length ss) \<and>
      0 \<le>s failedTotal (folded ss (NewPinger w u ival c)) \<and>
      failedTotal (folded ss (NewPinger w u ival c)) \<le>s total_n (folded ss (NewPinger w u ival c)) \<and>
      accumulator_inv (folded ss (NewPinger w u ival c))) \<and>
   (accumulator_inv p \<and> total_n p \<noteq> MaxInt64 \<longrightarrow> accumulator_inv (tick p s)) \<and>
   (Ping (NewPinger w u ival c) es = Inr (ph, n, p') \<and> n < 9223372036854775808 \<longrightarrow>
      sint (total_n p') = int n \<and> accumulator_inv p' \<and>
      (0 < n \<longrightarrow> minDuration p' \<le>s maxDuration p'))"
proof -
  have "total_n (folded ss (NewPinger w u ival c)) = of_nat (length ss)"
    by (simp add: folded_def foldl_tick_total_n NewPinger_def)
  moreover have "length ss < 9223372036854775808 \<longrightarrow>
      0 \<le>s failedTotal (folded ss (NewPinger w u ival c)) \<and>
      failedTotal (folded ss (NewPinger w u ival c)) \<le>s total_n (folded ss (NewPinger w u ival c))"
    using folded_inv [of ss w u ival c] by (simp add: accumulator_inv_def)
  ultimately show ?thesis
    using folded_min_le_max [of ss "NewPinger w u ival c"] folded_counts(2) [of ss w u ival c]
      folded_inv [of ss w u ival c] accumulator_inv_tick [of p s]
      Ping_inv [of w u ival c es ph n p']
    by blast
qed

theorem accumulator_invariant_witness:
  "[stats_ok 5, stats_failed Canceled 3, stats_failed EOF 9] \<noteq> [] \<and>
   length [stats_ok 5, stats_failed Canceled 3, stats_failed EOF 9] < (9223372036854775808::nat) \<and>
   sint (total_n (folded [stats_ok 5, stats_failed Canceled 3, stats_failed EOF 9]
      (NewPinger [] ''tcp://example.com:80'' 0 3))) = 3 \<and>
   accumulator_inv (folded [stats_ok 5, stats_failed Canceled 3, stats_failed EOF 9]
      (NewPinger [] ''tcp://example.com:80'' 0 3)) \<and>
   accumulator_inv (NewPinger [] ''tcp://example.com:80'' 0 3) \<and>
   total_n (NewPinger [] ''tcp://example.com:80'' 0 3) \<noteq> MaxInt64 \<and>
   accumulator_inv (tick (NewPinger [] ''tcp://example.com:80'' 0 3) (stats_failed EOF 9)) \<and>
   Ping (NewPinger [] ''tcp://example.com:80'' 0 3)
        (map TimerC [stats_ok 5, stats_failed Canceled 3, stats_failed EOF 9] @ []) =
     Inr (Stopped, 3,
          (folded [stats_ok 5, stats_failed Canceled 3, stats_failed EOF 9]
             (NewPinger [] ''tcp://example.com:80'' 0 3))\<lparr>stopOnce := True, stopC := True\<rparr>) \<and>
   accumulator_inv ((folded [stats_ok 5, stats_failed Canceled 3, stats_failed EOF 9]
             (NewPinger [] ''tcp://example.com:80'' 0 3))\<lparr>stopOnce := True, stopC := True\<rparr>)"
proof -
  have p: "Ping (NewPinger [] ''tcp://example.com:80'' 0 3)
        (map TimerC [stats_ok 5, stats_failed Canceled 3, stats_failed EOF 9] @ []) =
     Inr (Stopped, 3,
          (folded [stats_ok 5, stats_failed Canceled 3, stats_failed EOF 9]
             (NewPinger [] ''tcp://example.com:80'' 0 3))\<lparr>stopOnce := True, stopC := True\<rparr>)"
    using Ping_bounded [of 3 "[stats_ok 5, stats_failed Canceled 3, stats_failed EOF 9]" "[]"
        "''tcp://example.com:80''" 0 "[]"]
    by (simp add: word_sless_alt folded_def)
  have i: "accumulator_inv (NewPinger [] ''tcp://example.com:80'' 0 3) \<and>
     total_n (NewPinger [] ''tcp://example.com:80'' 0 3) \<noteq> MaxInt64"
    by (simp add: accumulator_inv_def NewPinger_def MaxInt64_def word_sle_eq word_sless_alt)
  show ?thesis
    using p i accumulator_invariant
      [of "[stats_ok 5, stats_failed Canceled 3, stats_failed EOF 9]" "[]"
          "''tcp://example.com:80''" 0 3 "NewPinger [] ''tcp://example.com:80'' 0 3"
          "stats_failed EOF 9"
          "map TimerC [stats_ok 5, stats_failed Canceled 3, stats_failed EOF 9] @ []"
          Stopped 3
          "(folded [stats_ok 5, stats_failed Canceled 3, stats_failed EOF 9]
             (NewPinger [] ''tcp://example.com:80'' 0 3))\<lparr>stopOnce := True, stopC := True\<rparr>"]
    by simp
qed

section \<open>What logStats prints\<close>

lemma printStats_out:
  "out (printStats p s) = out p @
     (case Error s of
        Some e \<Rightarrow>
          [Fprintf ''Ping %s(%s) %s(%s) - time=%-10s dns=%-9s''
             [Str (url p), Str (Address s), Str (if Connected s then ''Connected'' else ''Failed''),
              Str (formatError e), Dur (Duration s), Dur (DNSDuration s)]]
      | None \<Rightarrow>
          [Fprintf ''Ping %s(%s) %s - time=%-10s dns=%-9s''
             [Str (url p), Str (Address s), Str (if Connected s then ''Connected'' else ''Failed''),
              Dur (Duration s), Dur (DNSDuration s)]]) @
     (if Meta s \<noteq> [] then [Fprintf '' %s'' [Str (FormatMeta s)]] else []) @
     [Fprint [CHR 0x0A]] @
     (case Extra s of Some x \<Rightarrow> [Fprintf ('' %s'' @ [CHR 0x0A]) [Str (TrimSpace x)]] | None \<Rightarrow> [])"
  by (simp add: printStats_def Let_def split: option.split)

lemma logStats_out:
  "out (logStats p s) =
     (case Error s of
        Some e \<Rightarrow> if errors_Is e Canceled then out p
                  else out (printStats p s)
      | None \<Rightarrow> out (printStats p s))"
  by (simp add: logStats_def printStats_def Let_def split: option.split)

text \<open>
  C10, as the code has it: a record whose error is the cancellation error changes the
  counters and leaves the output as it was. A record with any other error that is not
  nil makes \<^verbatim>\<open>logStats\<close> write the status line (with the normalized error, and the metadata
  when there is any), its line feed, and after it the extra block with a line feed of its
  own when the record has one. The line feeds written are these and the ones inside the
  printed texts: exactly one when there is no extra block and no printed text holds a
  line feed.
\<close>

theorem logStats_cancelled_prints_nothing:
  "(Error s = Some e \<and> errors_Is e Canceled \<longrightarrow>
      out (logStats p s) = out p \<and>
      failedTotal (logStats p s) = failedTotal p + 1 \<and>
      totalDuration (logStats p s) = totalDuration p + Duration s) \<and>
   (Error s = Some e \<and> \<not> errors_Is e Canceled \<longrightarrow>
      out (logStats p s) = out p @
        [Fprintf ''Ping %s(%s) %s(%s) - time=%-10s dns=%-9s''
           [Str (url p), Str (Address s), Str (if Connected s then ''Connected'' else ''Failed''),
            Str (formatError e), Dur (Duration s), Dur (DNSDuration s)]] @
        (if Meta s \<noteq> [] then [Fprintf '' %s'' [Str (FormatMeta s)]] else []) @
        [Fprint [CHR 0x0A]] @
        (case Extra s of Some x \<Rightarrow> [Fprintf ('' %s'' @ [CHR 0x0A]) [Str (TrimSpace x)]]
         | None \<Rightarrow> []) \<and>
      line_feeds (drop (length (out p)) (out (logStats p s))) =
        1 + count_lf (url p) + count_lf (Address s) + count_lf (formatError e) +
        (if Meta s \<noteq> [] then count_lf (FormatMeta s) else 0) +
        (case Extra s of Some x \<Rightarrow> 1 + count_lf (TrimSpace x) | None \<Rightarrow> 0)) \<and>
   (Error s = Some e \<and> \<not> errors_Is e Canceled \<and> Extra s = None \<and>
    count_lf (url p) = 0 \<and> count_lf (Address s) = 0 \<and> count_lf (formatError e) = 0 \<and>
    count_lf (FormatMeta s) = 0 \<longrightarrow>
      line_feeds (drop (length (out p)) (out (logStats p s))) = 1)"
proof -
  have new: "Error s = Some e \<Longrightarrow> \<not> errors_Is e Canceled \<Longrightarrow>
      out (logStats p s) = out p @
        [Fprintf ''Ping %s(%s) %s(%s) - time=%-10s dns=%-9s''
           [Str (url p), Str (Address s), Str (if Connected s then ''Connected'' else ''Failed''),
            Str (formatError e), Dur (Duration s), Dur (DNSDuration s)]] @
        (if Meta s \<noteq> [] then [Fprintf '' %s'' [Str (FormatMeta s)]] else []) @
        [Fprint [CHR 0x0A]] @
        (case Extra s of Some x \<Rightarrow> [Fprintf ('' %s'' @ [CHR 0x0A]) [Str (TrimSpace x)]]
         | None \<Rightarrow> [])"
    by (simp add: logStats_out printStats_out)
  have count: "Error s = Some e \<Longrightarrow> \<not> errors_Is e Canceled \<Longrightarrow>
      line_feeds (drop (length (out p)) (out (logStats p s))) =
        1 + count_lf (url p) + count_lf (Address s) + count_lf (formatError e) +
        (if Meta s \<noteq> [] then count_lf (FormatMeta s) else 0) +
        (case Extra s of Some x \<Rightarrow> 1 + count_lf (TrimSpace x) | None \<Rightarrow> 0)"
    by (simp add: new line_feeds_def count_lf_def split: option.split)
  have cancel: "Error s = Some e \<Longrightarrow> errors_Is e Canceled \<Longrightarrow>
      out (logStats p s) = out p \<and>
      failedTotal (logStats p s) = failedTotal p + 1 \<and>
      totalDuration (logStats p s) = totalDuration p + Duration s"
    by (simp add: logStats_out logStats_failedTotal logStats_totalDuration)
  have one: "line_feeds (drop (length (out p)) (out (logStats p s))) = 1"
    if a: "Error s = Some e" "\<not> errors_Is e Canceled" and b: "Extra s = None"
      "count_lf (url p) = 0" "count_lf (Address s) = 0" "count_lf (formatError e) = 0"
      "count_lf (FormatMeta s) = 0"
    using count [OF a] b by simp
  show ?thesis using new count cancel one by blast
qed

theorem logStats_cancelled_prints_nothing_witness:
  "Error (stats_failed Canceled 3) = Some Canceled \<and> errors_Is Canceled Canceled \<and>
   out (logStats (NewPinger [] ''tcp://example.com:80'' 0 0) (stats_failed Canceled 3)) = [] \<and>
   failedTotal (logStats (NewPinger [] ''tcp://example.com:80'' 0 0) (stats_failed Canceled 3)) = 1 \<and>
   Error (stats_failed EOF 9) = Some EOF \<and> \<not> errors_Is EOF Canceled \<and>
   Extra (stats_failed EOF 9) = None \<and>
   count_lf (url (NewPinger [] ''tcp://example.com:80'' 0 0)) = 0 \<and>
   count_lf (Address (stats_failed EOF 9)) = 0 \<and>
   count_lf (formatError EOF) = 0 \<and>
   count_lf (FormatMeta (stats_failed EOF 9)) = 0 \<and>
   out (logStats (NewPinger [] ''tcp://example.com:80'' 0 0) (stats_failed EOF 9)) =
     [Fprintf ''Ping %s(%s) %s(%s) - time=%-10s dns=%-9s''
        [Str ''tcp://example.com:80'', Str ''93.184.216.34:80'', Str ''Failed'',
         Str msg_eof, Dur 9, Dur 0],
      Fprint [CHR 0x0A]] \<and>
   line_feeds (out (logStats (NewPinger [] ''tcp://example.com:80'' 0 0) (stats_failed EOF 9))) = 1"
  using logStats_cancelled_prints_nothing
      [of "stats_failed Canceled 3" Canceled "NewPinger [] ''tcp://example.com:80'' 0 0"]
    logStats_cancelled_prints_nothing
      [of "stats_failed EOF 9" EOF "NewPinger [] ''tcp://example.com:80'' 0 0"]
  by (simp add: stats_failed_def NewPinger_def formatError_def is_net_Error_def afterSwitch_def
      line_feeds_def count_lf_def msg_eof_def FormatMeta_def)

text \<open>
  C10 as stated fails. A record with the error \<^verbatim>\<open>io.EOF\<close> and an extra block makes
  \<^verbatim>\<open>logStats\<close> print two lines. So does a record without an extra block whose error has a
  text of two lines that no test of the normalizer matches.
\<close>

theorem logStats_error_prints_two_lines:
  "Error (stats_extra EOF 9 ''tls: 1.3'') = Some EOF \<and> \<not> errors_Is EOF Canceled \<and>
   out (logStats (NewPinger [] ''https://example.com:443'' 0 0) (stats_extra EOF 9 ''tls: 1.3'')) =
     [Fprintf ''Ping %s(%s) %s(%s) - time=%-10s dns=%-9s''
        [Str ''https://example.com:443'', Str ''93.184.216.34:443'', Str ''Failed'',
         Str msg_eof, Dur 9, Dur 0],
      Fprint [CHR 0x0A],
      Fprintf ('' %s'' @ [CHR 0x0A]) [Str ''tls: 1.3'']] \<and>
   line_feeds
     (out (logStats (NewPinger [] ''https://example.com:443'' 0 0)
        (stats_extra EOF 9 ''tls: 1.3''))) = 2 \<and>
   \<not> errors_Is (ErrorString (''dial failed'' @ [CHR 0x0A] @ ''no route'')) Canceled \<and>
   out (logStats (NewPinger [] ''tcp://example.com:80'' 0 0)
      (stats_failed (ErrorString (''dial failed'' @ [CHR 0x0A] @ ''no route'')) 9)) =
     [Fprintf ''Ping %s(%s) %s(%s) - time=%-10s dns=%-9s''
        [Str ''tcp://example.com:80'', Str ''93.184.216.34:80'', Str ''Failed'',
         Str (''dial failed'' @ [CHR 0x0A] @ ''no route''), Dur 9, Dur 0],
      Fprint [CHR 0x0A]] \<and>
   line_feeds
     (out (logStats (NewPinger [] ''tcp://example.com:80'' 0 0)
        (stats_failed (ErrorString (''dial failed'' @ [CHR 0x0A] @ ''no route'')) 9))) = 2"
  by (simp add: logStats_out printStats_out stats_extra_def stats_failed_def NewPinger_def
      line_feeds_def count_lf_def msg_eof_def formatError_def is_net_Error_def afterSwitch_def
      matchText_def TrimSpace_def white_space_def space_width_def)

section \<open>The error normalizer\<close>

lemma matchText_first_match: "matchText txt = first_match txt"
  by (simp add: matchText_def first_match_def phrases_def)

lemma formatErr_layer: "formatErr tmo err = formatErr tmo (layer err)"
  by (induction tmo err rule: formatErr.induct) simp_all

lemma layer_idem: "layer (layer err) = layer err"
  by (induction err rule: layer.induct) simp_all

lemma is_net_Error_UrlError [simp]: "is_net_Error (UrlError op u e)"
  by (simp add: is_net_Error_def)

lemma is_net_Error_OpError [simp]: "is_net_Error (OpError op nt src ad e)"
  by (cases e) (simp_all add: is_net_Error_def)

lemma formatErr_typed_first:
  "formatErr tmo err =
     (case typed_check tmo (layer err) of
        Some msg \<Rightarrow> msg
      | None \<Rightarrow> first_match (ErrorText (layer err)))"
  by (induction tmo err rule: formatErr.induct)
     (simp_all add: typed_check_def afterSwitch_def matchText_first_match split: option.split)

lemma errors_Is_layer:
  "errors_Is err DeadlineExceeded \<Longrightarrow> errors_Is (layer err) DeadlineExceeded"
  by (induction err rule: layer.induct) simp_all

lemma size_layer: "size (layer err) \<le> size err"
  by (induction err rule: layer.induct) auto

lemma layer_UrlError_fixed:
  assumes "layer (UrlError op u e) = UrlError op u e"
  shows "Timeout (UrlError op u e)"
proof (rule ccontr)
  assume "\<not> Timeout (UrlError op u e)"
  then have "layer e = UrlError op u e" using assms by simp
  then have "size (layer e) = size (UrlError op u e)" by (rule arg_cong)
  then show False using size_layer [of e] by simp
qed

lemma typed_check_deadline_leaf:
  "errors_Is err DeadlineExceeded \<Longrightarrow> \<not> is_OpError err \<Longrightarrow>
   (\<forall>op u e. err \<noteq> UrlError op u e) \<Longrightarrow> typed_check tmo err = Some tmo"
  by (cases err) (simp_all add: typed_check_def is_net_Error_def Timeout_def is_true_def)

lemma typed_check_deadline:
  assumes "errors_Is err DeadlineExceeded" "\<not> is_OpError err" "layer err = err"
  shows "typed_check tmo err = Some tmo"
proof (cases "\<exists>op u e. err = UrlError op u e")
  case True
  then obtain op u e where e: "err = UrlError op u e" by blast
  have "layer (UrlError op u e) = UrlError op u e" using assms(3) e by (simp only:)
  then have "Timeout (UrlError op u e)" by (rule layer_UrlError_fixed)
  then show ?thesis by (simp add: typed_check_def e)
next
  case False
  then show ?thesis using assms(1,2) by (intro typed_check_deadline_leaf) simp_all
qed

lemma formatErr_deadline:
  assumes "errors_Is err DeadlineExceeded" "\<not> is_OpError (layer err)"
  shows "formatErr tmo err = tmo"
proof -
  have "typed_check tmo (layer err) = Some tmo"
    using errors_Is_layer [OF assms(1)] assms(2) layer_idem [of err]
    by (rule typed_check_deadline)
  then show ?thesis by (simp add: formatErr_typed_first)
qed

lemma deadline_chain_Is: "deadline_chain err \<Longrightarrow> errors_Is err DeadlineExceeded"
  by (induction err rule: deadline_chain.induct) simp_all

lemma formatErr_deadline_chain: "deadline_chain err \<Longrightarrow> formatErr tmo err = tmo"
  by (induction err rule: deadline_chain.induct)
     (simp_all add: is_net_Error_def Timeout_def is_true_def deadline_chain_Is)

lemma first_match_none:
  "\<forall>(phrase, msg)\<in>set phrases. \<not> Contains txt phrase \<Longrightarrow> first_match txt = txt"
  by (simp add: first_match_def phrases_def)

lemma formatErr_no_match:
  assumes "layer err = err" "typed_check tmo err = None"
    "\<forall>(phrase, msg)\<in>set phrases. \<not> Contains (ErrorText err) phrase"
  shows "formatErr tmo err = ErrorText err"
  using assms by (simp add: formatErr_typed_first first_match_none)

text \<open>
  C4, as the code has it, for \<^verbatim>\<open>FormatError\<close> and \<^verbatim>\<open>Pinger.formatError\<close> with their
  timeout messages. The result is what the typed tests give on the layer where the
  unwrapping ends, and only when none of them fires the first phrase of the table that
  the text of that layer contains. A deadline-exceeded cause gives the timeout message,
  whatever the texts say, when that layer is not a \<^verbatim>\<open>*net.OpError\<close>, and so for every
  \<open>deadline_chain\<close>, at any depth. When no typed test fires and no phrase matches, the
  result is the text of that layer, which is the error's own text when the type switch
  unwraps nothing.
\<close>

theorem FormatError_typed_checks_first:
  assumes "(f, tmo) = (FormatError, msg_conn_timeout) \<or> (f, tmo) = (formatError, msg_timeout)"
  shows "f err = (case typed_check tmo (layer err) of
                    Some msg \<Rightarrow> msg
                  | None \<Rightarrow> first_match (ErrorText (layer err))) \<and>
         (errors_Is err DeadlineExceeded \<and> \<not> is_OpError (layer err) \<longrightarrow> f err = tmo) \<and>
         (deadline_chain err \<longrightarrow> f err = tmo) \<and>
         (layer err = err \<and> typed_check tmo err = None \<and>
          (\<forall>(phrase, msg)\<in>set phrases. \<not> Contains (ErrorText err) phrase) \<longrightarrow>
            f err = ErrorText err)"
proof -
  have f: "f err = formatErr tmo err"
    using assms by (auto simp: FormatError_def formatError_def)
  show ?thesis
    unfolding f
    using formatErr_typed_first [of tmo err] formatErr_deadline [of err tmo]
      formatErr_deadline_chain [of err tmo] formatErr_no_match [of err tmo]
    by blast
qed

theorem FormatError_typed_checks_first_witness:
  "deadline_chain
     (WrapError ''probe: connection refused: dial: context deadline exceeded''
        (WrapError ''dial: context deadline exceeded'' DeadlineExceeded)) \<and>
   errors_Is
     (WrapError ''probe: connection refused: dial: context deadline exceeded''
        (WrapError ''dial: context deadline exceeded'' DeadlineExceeded)) DeadlineExceeded \<and>
   \<not> is_OpError (layer
     (WrapError ''probe: connection refused: dial: context deadline exceeded''
        (WrapError ''dial: context deadline exceeded'' DeadlineExceeded))) \<and>
   Contains ''probe: connection refused: dial: context deadline exceeded'' ''connection refused'' \<and>
   FormatError
     (WrapError ''probe: connection refused: dial: context deadline exceeded''
        (WrapError ''dial: context deadline exceeded'' DeadlineExceeded)) = msg_conn_timeout \<and>
   formatError
     (WrapError ''probe: connection refused: dial: context deadline exceeded''
        (WrapError ''dial: context deadline exceeded'' DeadlineExceeded)) = msg_timeout \<and>
   layer (ErrorString ''boom'') = ErrorString ''boom'' \<and>
   typed_check msg_conn_timeout (ErrorString ''boom'') = None \<and>
   FormatError (ErrorString ''boom'') = ''boom''"
  using FormatError_typed_checks_first
      [of FormatError msg_conn_timeout
          "WrapError ''probe: connection refused: dial: context deadline exceeded''
             (WrapError ''dial: context deadline exceeded'' DeadlineExceeded)"]
    FormatError_typed_checks_first
      [of formatError msg_timeout
          "WrapError ''probe: connection refused: dial: context deadline exceeded''
             (WrapError ''dial: context deadline exceeded'' DeadlineExceeded)"]
    FormatError_typed_checks_first
      [of FormatError msg_conn_timeout "ErrorString ''boom''"]
  by (simp add: typed_check_def is_net_Error_def phrases_def first_match_def)

text \<open>
  C4 as stated fails. Under a \<^verbatim>\<open>*net.OpError\<close> whose cause is a \<^verbatim>\<open>fmt\<close> wrapper of
  \<^verbatim>\<open>context.DeadlineExceeded\<close> (two levels deep) the phrase "connection refused" of the
  text decides, not the deadline. And for a \<^verbatim>\<open>*url.Error\<close> around an error that nothing
  matches, the result is the text of the inner error, not the text of the error given.
\<close>

theorem FormatError_deadline_under_OpError:
  "errors_Is
     (OpError ''dial'' ''tcp'' None (Some ''93.184.216.34:80'')
        (WrapError ''connect: connection refused: context deadline exceeded'' DeadlineExceeded))
     DeadlineExceeded \<and>
   FormatError
     (OpError ''dial'' ''tcp'' None (Some ''93.184.216.34:80'')
        (WrapError ''connect: connection refused: context deadline exceeded'' DeadlineExceeded))
     = msg_conn_refused \<and>
   formatError
     (OpError ''dial'' ''tcp'' None (Some ''93.184.216.34:80'')
        (WrapError ''connect: connection refused: context deadline exceeded'' DeadlineExceeded))
     = msg_conn_refused \<and>
   msg_conn_refused \<noteq> msg_conn_timeout \<and> msg_conn_refused \<noteq> msg_timeout \<and>
   FormatError (UrlError ''Get'' ''http://example.com'' (ErrorString ''boom'')) = ''boom'' \<and>
   ErrorText (UrlError ''Get'' ''http://example.com'' (ErrorString ''boom'')) =
     ''Get '' @ [CHR 0x22] @ ''http://example.com'' @ [CHR 0x22] @ '': boom''"
  by (simp add: FormatError_def formatError_def is_net_Error_def Timeout_def is_true_def
      Temporary_def afterSwitch_def matchText_def Quote_def
      msg_conn_refused_def msg_conn_timeout_def msg_timeout_def)

end
